theory Spec2Isabelle
  imports Complex_Main "HOL-Library.AList"
begin
section \<open>Frame Animation Queue (src/core/JointAnimationQueue.ts)\<close>

subsection \<open>Data\<close>

text \<open>
  \<^verbatim>\<open>FrameData\<close>: a JavaScript number is modelled as a real (times are milliseconds, joint
  values radians). The optional \<^verbatim>\<open>io\<close> object and its optional \<^verbatim>\<open>digital_output_0\<close> field are
  options; the field \<^verbatim>\<open>id\<close> is called \<open>frame_id\<close>.
\<close>

record io_flags =
  digital_output_0 :: "bool option"

record FrameData =
  frame_id :: int
  time :: real
  joints :: "real list"
  cartesian :: "(real list \<times> real list) option"
  io :: "io_flags option"

datatype PlayStatus = Idle | Playing | Stopped

text \<open>
  A GSAP timeline created by \<^verbatim>\<open>RobotArm.animateMultipleJoints\<close>: the tweens (joint name and
  target angle in degrees), the common duration in seconds, and the frame its callbacks
  close over.
\<close>

record transition =
  tr_tweens :: "(string \<times> real) list"
  tr_duration :: real
  tr_frame :: FrameData

record gripper_tween =
  gt_openness :: real
  gt_duration :: real

text \<open>
  The part of \<^verbatim>\<open>RobotArm\<close> the queue drives: the joint names of \<^verbatim>\<open>getJointConfigs()\<close>, the
  slot \<^verbatim>\<open>animationState.timeline\<close> (a handle of a GSAP timeline, which may have completed
  already) and \<^verbatim>\<open>gripperAnimationTimeline\<close>.
\<close>

record RobotArm =
  jointConfigs :: "string list"
  timeline :: "nat option"
  gripperAnimationTimeline :: "gripper_tween option"

text \<open>
  The queue object together with what it acts on. The application has one \<^verbatim>\<open>RobotArm\<close>
  object (\<open>arm\<close>); the queue's field \<^verbatim>\<open>robotArm\<close> is null or a reference to it, hence a flag.
  \<open>gsap\<close> holds the timelines GSAP is still playing (progress below 1), by handle, and
  \<open>gsapNext\<close> is the next fresh handle. \<^verbatim>\<open>animationLoopId\<close> is only ever compared with null,
  so the number is not kept. The callbacks of \<^verbatim>\<open>playCallbackOptions\<close> only notify the caller
  and are left out.
\<close>

record JointAnimationQueue =
  robotArm :: bool
  frameQueue :: "FrameData list"
  status :: PlayStatus
  isProcessing :: bool
  animationLoopId :: "unit option"
  lastProcessedFrame :: "FrameData option"
  arm :: RobotArm
  gsap :: "(nat \<times> transition) list"
  gsapNext :: nat

definition newQueue :: "RobotArm \<Rightarrow> JointAnimationQueue" where
  "newQueue a =
     \<lparr>robotArm = False, frameQueue = [], status = Idle, isProcessing = False,
      animationLoopId = None, lastProcessedFrame = None, arm = a, gsap = [], gsapNext = 0\<rparr>"

subsection \<open>GSAP and the robot arm\<close>

text \<open>
  \<^verbatim>\<open>timeline.kill()\<close>: a timeline that is still playing is removed and its \<^verbatim>\<open>onInterrupt\<close>
  runs, which for every timeline of this model is the closure of \<^verbatim>\<open>executeFrame\<close>
  (\<^verbatim>\<open>isProcessing = false\<close>); killing a completed timeline does nothing.
\<close>

definition gsapKill :: "nat \<Rightarrow> JointAnimationQueue \<Rightarrow> JointAnimationQueue" where
  "gsapKill h s =
     (case map_of (gsap s) h of
        None \<Rightarrow> s
      | Some tr \<Rightarrow> s\<lparr>gsap := filter (\<lambda>p. fst p \<noteq> h) (gsap s), isProcessing := False\<rparr>)"

definition killArmTimeline :: "JointAnimationQueue \<Rightarrow> JointAnimationQueue" where
  "killArmTimeline s =
     (case timeline (arm s) of
        None \<Rightarrow> s
      | Some h \<Rightarrow> (let s1 = gsapKill h s in s1\<lparr>arm := (arm s1)\<lparr>timeline := None\<rparr>\<rparr>))"

definition animateMultipleJoints ::
  "(string \<times> real) list \<Rightarrow> real \<Rightarrow> FrameData \<Rightarrow> JointAnimationQueue \<Rightarrow> JointAnimationQueue" where
  "animateMultipleJoints jointAngles duration frame s =
     (let s1 = killArmTimeline s;
          h = gsapNext s1;
          tr = \<lparr>tr_tweens = filter (\<lambda>p. fst p \<in> set (jointConfigs (arm s1))) jointAngles,
                tr_duration = duration, tr_frame = frame\<rparr>
      in s1\<lparr>gsap := gsap s1 @ [(h, tr)], gsapNext := Suc h,
             arm := (arm s1)\<lparr>timeline := Some h\<rparr>\<rparr>)"

definition animateGripperOpenness :: "real \<Rightarrow> real \<Rightarrow> JointAnimationQueue \<Rightarrow> JointAnimationQueue" where
  "animateGripperOpenness openness duration s =
     s\<lparr>arm := (arm s)\<lparr>gripperAnimationTimeline :=
          Some \<lparr>gt_openness = openness, gt_duration = duration\<rparr>\<rparr>\<rparr>"

definition stopAnimation :: "JointAnimationQueue \<Rightarrow> JointAnimationQueue" where
  "stopAnimation s = killArmTimeline s"

text \<open>
  \<^verbatim>\<open>stopAllJointAnimations\<close>: \<^verbatim>\<open>gsap.killTweensOf(config)\<close> for every joint config removes the
  tweens on the arm's joints from whatever timeline still holds them.
\<close>

definition stopAllJointAnimations :: "JointAnimationQueue \<Rightarrow> JointAnimationQueue" where
  "stopAllJointAnimations s =
     s\<lparr>gsap := map (\<lambda>(h, tr). (h, tr\<lparr>tr_tweens :=
                 filter (\<lambda>p. fst p \<notin> set (jointConfigs (arm s))) (tr_tweens tr)\<rparr>)) (gsap s)\<rparr>"

subsection \<open>The queue's methods\<close>

definition setRobotArm :: "JointAnimationQueue \<Rightarrow> JointAnimationQueue" where
  "setRobotArm s = s\<lparr>robotArm := True\<rparr>"

definition startAnimationLoop :: "JointAnimationQueue \<Rightarrow> JointAnimationQueue" where
  "startAnimationLoop s =
     (case animationLoopId s of Some _ \<Rightarrow> s | None \<Rightarrow> s\<lparr>animationLoopId := Some ()\<rparr>)"

definition stopAnimationLoop :: "JointAnimationQueue \<Rightarrow> JointAnimationQueue" where
  "stopAnimationLoop s =
     (case animationLoopId s of Some _ \<Rightarrow> s\<lparr>animationLoopId := None\<rparr> | None \<Rightarrow> s)"

definition startSequence :: "JointAnimationQueue \<Rightarrow> JointAnimationQueue" where
  "startSequence s =
     startAnimationLoop
       (s\<lparr>status := Playing, frameQueue := [], lastProcessedFrame := None,
          isProcessing := False\<rparr>)"

definition enqueueFrame :: "FrameData \<Rightarrow> JointAnimationQueue \<Rightarrow> JointAnimationQueue" where
  "enqueueFrame frame s = s\<lparr>frameQueue := frameQueue s @ [frame]\<rparr>"

definition clearQueue :: "JointAnimationQueue \<Rightarrow> JointAnimationQueue" where
  "clearQueue s = s\<lparr>frameQueue := []\<rparr>"

definition calculateFrameDuration ::
  "JointAnimationQueue \<Rightarrow> FrameData \<Rightarrow> FrameData option \<Rightarrow> real" where
  "calculateFrameDuration s currentFrame nextFrame =
     (case lastProcessedFrame s of
        None \<Rightarrow> 1.0
      | Some lastp \<Rightarrow>
          (case nextFrame of
             Some nxt \<Rightarrow> max 0.1 ((time nxt - time currentFrame) / 1000)
           | None \<Rightarrow> max 0.1 ((time currentFrame - time lastp) / 1000)))"

text \<open>
  The \<^verbatim>\<open>forEach\<close> of \<^verbatim>\<open>executeFrame\<close> over \<^verbatim>\<open>frame.joints\<close> with its index: an angle beyond
  the configured joints is dropped, the others are converted to degrees and stored under
  the joint's name (a later assignment to the same name replaces the value in place).
\<close>

fun buildJointAngles ::
  "string list \<Rightarrow> nat \<Rightarrow> real list \<Rightarrow> (string \<times> real) list \<Rightarrow> (string \<times> real) list" where
  "buildJointAngles cfg index [] jointAngles = jointAngles"
| "buildJointAngles cfg index (angleRad # rest) jointAngles =
     buildJointAngles cfg (Suc index) rest
       (if index < length cfg
        then AList.update (cfg ! index) ((angleRad * 180) / pi) jointAngles
        else jointAngles)"

text \<open>The optional chain \<^verbatim>\<open>frame.io?.digital_output_0\<close>; \<open>None\<close> is \<^verbatim>\<open>undefined\<close>.\<close>

definition io_digital_output_0 :: "FrameData \<Rightarrow> bool option" where
  "io_digital_output_0 frame =
     (case io frame of None \<Rightarrow> None | Some flags \<Rightarrow> digital_output_0 flags)"

definition gripperOpennessOf :: "FrameData \<Rightarrow> real option" where
  "gripperOpennessOf frame =
     (case io_digital_output_0 frame of
        None \<Rightarrow> None
      | Some b \<Rightarrow> Some (if b then 0 else 1))"

text \<open>
  \<^verbatim>\<open>executeFrame\<close>. With \<^verbatim>\<open>frame.joints\<close> a list of numbers nothing inside the \<^verbatim>\<open>try\<close> block
  throws (neither \<^verbatim>\<open>animateMultipleJoints\<close> nor \<^verbatim>\<open>animateGripperOpenness\<close> has a throw), so
  the \<^verbatim>\<open>catch\<close> branch has no counterpart here. The default duration of
  \<^verbatim>\<open>animateGripperOpenness\<close> is 0.5.
\<close>

definition executeFrame ::
  "FrameData \<Rightarrow> FrameData option \<Rightarrow> JointAnimationQueue \<Rightarrow> JointAnimationQueue" where
  "executeFrame frame nextFrame s =
     (if \<not> robotArm s then s\<lparr>isProcessing := False\<rparr>
      else
        (let duration = calculateFrameDuration s frame nextFrame;
             jointAngles = buildJointAngles (jointConfigs (arm s)) 0 (joints frame) [];
             s1 = animateMultipleJoints jointAngles duration frame s
         in (case gripperOpennessOf frame of
               None \<Rightarrow> s1
             | Some openness \<Rightarrow> animateGripperOpenness openness 0.5 s1)))"

definition processQueue :: "JointAnimationQueue \<Rightarrow> JointAnimationQueue" where
  "processQueue s =
     (if isProcessing s then s
      else if \<not> robotArm s then s
      else
        (case frameQueue s of
           [] \<Rightarrow> s
         | currentFrame # rest \<Rightarrow>
             executeFrame currentFrame (case rest of [] \<Rightarrow> None | nxt # _ \<Rightarrow> Some nxt)
               (s\<lparr>isProcessing := True, frameQueue := rest\<rparr>)))"

definition stop :: "JointAnimationQueue \<Rightarrow> JointAnimationQueue" where
  "stop s =
     (if status s = Idle then s
      else
        (let s1 = s\<lparr>status := Stopped, isProcessing := False\<rparr>;
             s2 = (if robotArm s1 then stopAllJointAnimations (stopAnimation s1) else s1)
         in clearQueue (stopAnimationLoop s2)))"

text \<open>
  One run of the \<^verbatim>\<open>requestAnimationFrame\<close> callback \<open>loop\<close> of \<^verbatim>\<open>startAnimationLoop\<close>, which
  registers itself again.
\<close>

definition loop :: "JointAnimationQueue \<Rightarrow> JointAnimationQueue" where
  "loop s =
     (let s1 = (if status s = Playing \<and> \<not> isProcessing s then processQueue s else s)
      in s1\<lparr>animationLoopId := Some ()\<rparr>)"

text \<open>
  The \<^verbatim>\<open>onComplete\<close> closure of \<^verbatim>\<open>executeFrame\<close>, run by GSAP when the timeline \<open>h\<close> reaches
  its end; the arm's slot keeps the handle of the finished timeline.
\<close>

definition timelineComplete :: "nat \<Rightarrow> JointAnimationQueue \<Rightarrow> JointAnimationQueue" where
  "timelineComplete h s =
     (case map_of (gsap s) h of
        None \<Rightarrow> s
      | Some tr \<Rightarrow>
          s\<lparr>gsap := filter (\<lambda>p. fst p \<noteq> h) (gsap s), isProcessing := False,
            lastProcessedFrame := Some (tr_frame tr)\<rparr>)"

text \<open>
  What can happen to a queue: calls of its public methods, a display refresh (which runs
  \<open>loop\<close> while the callback is registered), the end of a timeline, and a timeline killed
  from outside the queue (another animation of the arm taking the slot).
\<close>

datatype queue_event =
    SetRobotArm
  | StartSequence
  | EnqueueFrame FrameData
  | AnimationFrame
  | TimelineComplete nat
  | TimelineKilled nat
  | Stop
  | ClearQueue

fun queue_step :: "queue_event \<Rightarrow> JointAnimationQueue \<Rightarrow> JointAnimationQueue" where
  "queue_step SetRobotArm s = setRobotArm s"
| "queue_step StartSequence s = startSequence s"
| "queue_step (EnqueueFrame f) s = enqueueFrame f s"
| "queue_step AnimationFrame s = (case animationLoopId s of None \<Rightarrow> s | Some _ \<Rightarrow> loop s)"
| "queue_step (TimelineComplete h) s = timelineComplete h s"
| "queue_step (TimelineKilled h) s = gsapKill h s"
| "queue_step Stop s = stop s"
| "queue_step ClearQueue s = clearQueue s"

definition queue_run :: "queue_event list \<Rightarrow> JointAnimationQueue \<Rightarrow> JointAnimationQueue" where
  "queue_run es s = fold queue_step es s"


section \<open>Transport Client (src/core/WebSocketClient.ts)\<close>

datatype readyState = CONNECTING | OPEN | CLOSING | CLOSED

text \<open>
  The client object and its surroundings. \<open>sockets\<close> holds the \<^verbatim>\<open>readyState\<close> of every
  \<^verbatim>\<open>WebSocket\<close> the client has created, in order of creation; the field \<^verbatim>\<open>ws\<close> is an index
  into it (a closed socket keeps its handlers and stays in the list). \<open>reconnectTimers\<close>
  counts the \<^verbatim>\<open>setTimeout\<close> callbacks of \<^verbatim>\<open>attemptReconnect\<close> that have not run yet, and
  \<open>timerConnects\<close> those that have run, each of which is one automatic reconnection
  attempt. \<open>emitted\<close> lists the events passed to \<^verbatim>\<open>emit\<close> and \<open>sentTypes\<close> the messages
  handed to a socket's \<^verbatim>\<open>send\<close>.
\<close>

record WebSocketClient =
  ws :: "nat option"
  heartbeatInterval :: "unit option"
  isConnected :: bool
  reconnectAttempts :: nat
  isReconnecting :: bool
  isManualDisconnect :: bool
  clientInfoId :: nat
  sockets :: "readyState list"
  reconnectTimers :: nat
  timerConnects :: nat
  emitted :: "string list"
  sentTypes :: "(nat \<times> string) list"

definition maxReconnectAttempts :: nat where
  "maxReconnectAttempts = 3"

definition reconnectDelay :: nat where
  "reconnectDelay = 2000"

definition newClient :: WebSocketClient where
  "newClient =
     \<lparr>ws = None, heartbeatInterval = None, isConnected = False, reconnectAttempts = 0,
      isReconnecting = False, isManualDisconnect = False, clientInfoId = 0, sockets = [],
      reconnectTimers = 0, timerConnects = 0, emitted = [], sentTypes = []\<rparr>"

definition emit :: "string \<Rightarrow> WebSocketClient \<Rightarrow> WebSocketClient" where
  "emit event s = s\<lparr>emitted := emitted s @ [event]\<rparr>"

definition stopHeartbeat :: "WebSocketClient \<Rightarrow> WebSocketClient" where
  "stopHeartbeat s =
     (case heartbeatInterval s of Some _ \<Rightarrow> s\<lparr>heartbeatInterval := None\<rparr> | None \<Rightarrow> s)"

definition startHeartbeat :: "WebSocketClient \<Rightarrow> WebSocketClient" where
  "startHeartbeat s = (stopHeartbeat s)\<lparr>heartbeatInterval := Some ()\<rparr>"

text \<open>
  \<^verbatim>\<open>send\<close>: nothing happens without a connection; \<^verbatim>\<open>WebSocket.send\<close> on a socket that is
  still connecting throws, which \<^verbatim>\<open>send\<close> catches and logs, and on a closing or closed
  socket the data is discarded.
\<close>

definition send :: "string \<Rightarrow> WebSocketClient \<Rightarrow> WebSocketClient" where
  "send type s =
     (if \<not> isConnected s then s
      else
        (case ws s of
           None \<Rightarrow> s
         | Some h \<Rightarrow>
             (if h < length (sockets s) \<and> sockets s ! h = OPEN
              then s\<lparr>sentTypes := sentTypes s @ [(h, type)]\<rparr> else s)))"

definition register :: "WebSocketClient \<Rightarrow> WebSocketClient" where
  "register s = send ''register'' s"

definition resetReconnectState :: "WebSocketClient \<Rightarrow> WebSocketClient" where
  "resetReconnectState s =
     s\<lparr>reconnectAttempts := 0, isManualDisconnect := False, isReconnecting := False\<rparr>"

definition cleanupConnection :: "WebSocketClient \<Rightarrow> WebSocketClient" where
  "cleanupConnection s =
     (let s1 = (stopHeartbeat s)\<lparr>isConnected := False\<rparr>
      in (case ws s1 of
            None \<Rightarrow> s1
          | Some h \<Rightarrow>
              (let s2 = (if h < length (sockets s1) \<and>
                            (sockets s1 ! h = OPEN \<or> sockets s1 ! h = CONNECTING)
                         then s1\<lparr>sockets := (sockets s1)[h := CLOSING]\<rparr> else s1)
               in s2\<lparr>ws := None\<rparr>)))"

text \<open>
  \<^verbatim>\<open>connect\<close> up to the creation of the socket; what its handlers do is in \<open>onopen\<close>,
  \<open>onclose\<close> and \<open>onerror\<close> below, which the socket's events run later.
\<close>

definition connect :: "WebSocketClient \<Rightarrow> WebSocketClient" where
  "connect s =
     (let s1 = (if ws s \<noteq> None then cleanupConnection s else s)
      in s1\<lparr>ws := Some (length (sockets s1)), sockets := sockets s1 @ [CONNECTING]\<rparr>)"

definition disconnect :: "WebSocketClient \<Rightarrow> WebSocketClient" where
  "disconnect s = cleanupConnection (s\<lparr>isManualDisconnect := True, isReconnecting := False\<rparr>)"

definition reconnect :: "WebSocketClient \<Rightarrow> WebSocketClient" where
  "reconnect s = connect (resetReconnectState s)"

definition attemptReconnect :: "WebSocketClient \<Rightarrow> WebSocketClient" where
  "attemptReconnect s =
     (if isReconnecting s \<or> isManualDisconnect s then s
      else s\<lparr>isReconnecting := True, reconnectAttempts := reconnectAttempts s + 1,
             reconnectTimers := reconnectTimers s + 1\<rparr>)"

definition onopen :: "WebSocketClient \<Rightarrow> WebSocketClient" where
  "onopen s =
     emit ''connected''
       (startHeartbeat (register (resetReconnectState (s\<lparr>isConnected := True\<rparr>))))"

definition onclose :: "WebSocketClient \<Rightarrow> WebSocketClient" where
  "onclose s =
     (let s1 = (stopHeartbeat (s\<lparr>isConnected := False\<rparr>))\<lparr>isReconnecting := False\<rparr>;
          s2 = emit ''disconnected'' s1
      in if \<not> isManualDisconnect s2 \<and> reconnectAttempts s2 < maxReconnectAttempts
         then attemptReconnect s2
         else if reconnectAttempts s2 \<ge> maxReconnectAttempts
         then emit ''reconnect_failed'' s2
         else s2)"

definition onerror :: "WebSocketClient \<Rightarrow> WebSocketClient" where
  "onerror s = emit ''error'' s"

text \<open>
  \<^verbatim>\<open>handleMessage\<close> for a parsed message: the type, and the \<^verbatim>\<open>clientId\<close> a \<^verbatim>\<open>connection\<close>
  message carries.
\<close>

definition handleMessage :: "string \<Rightarrow> nat \<Rightarrow> WebSocketClient \<Rightarrow> WebSocketClient" where
  "handleMessage type cid s =
     (if type = ''connection'' then s\<lparr>clientInfoId := cid\<rparr>
      else if type = ''register_success'' then s
      else if type = ''heartbeat_response'' then s
      else if type = ''error'' then emit ''error'' s
      else emit type s)"

text \<open>
  What can happen to a client: calls of its public methods; the events of one of its
  sockets (it opens, fails, closes or delivers a message); a heartbeat interval tick; and
  the timer of \<^verbatim>\<open>attemptReconnect\<close> running, which calls \<^verbatim>\<open>connect\<close>. A socket opens only
  while connecting and closes only once.
\<close>

datatype client_event =
    Connect
  | Disconnect
  | Reconnect
  | Send string
  | SocketOpen nat
  | SocketError nat
  | SocketClose nat
  | SocketMessage nat string nat
  | HeartbeatTick
  | ReconnectTimer

fun client_step :: "client_event \<Rightarrow> WebSocketClient \<Rightarrow> WebSocketClient" where
  "client_step Connect s = connect s"
| "client_step Disconnect s = disconnect s"
| "client_step Reconnect s = reconnect s"
| "client_step (Send type) s = send type s"
| "client_step (SocketOpen h) s =
     (if h < length (sockets s) \<and> sockets s ! h = CONNECTING
      then onopen (s\<lparr>sockets := (sockets s)[h := OPEN]\<rparr>) else s)"
| "client_step (SocketError h) s =
     (if h < length (sockets s) \<and> sockets s ! h \<noteq> CLOSED then onerror s else s)"
| "client_step (SocketClose h) s =
     (if h < length (sockets s) \<and> sockets s ! h \<noteq> CLOSED
      then onclose (s\<lparr>sockets := (sockets s)[h := CLOSED]\<rparr>) else s)"
| "client_step (SocketMessage h type cid) s =
     (if h < length (sockets s) \<and> sockets s ! h = OPEN then handleMessage type cid s else s)"
| "client_step HeartbeatTick s =
     (if heartbeatInterval s \<noteq> None \<and> isConnected s then send ''heartbeat'' s else s)"
| "client_step ReconnectTimer s =
     (if reconnectTimers s = 0 then s
      else connect (s\<lparr>reconnectTimers := reconnectTimers s - 1,
                      timerConnects := timerConnects s + 1\<rparr>))"

definition client_run :: "client_event list \<Rightarrow> WebSocketClient \<Rightarrow> WebSocketClient" where
  "client_run es s = fold client_step es s"

text \<open>
  The events of a run in which every connection attempt fails and nobody intervenes: no
  socket opens and no public method is called.
\<close>

fun failing_event :: "client_event \<Rightarrow> bool" where
  "failing_event (SocketError h) = True"
| "failing_event (SocketClose h) = True"
| "failing_event ReconnectTimer = True"
| "failing_event _ = False"


section \<open>Relay Hub (the server script in src/vite.config.ts)\<close>

subsection \<open>Data\<close>

text \<open>A parsed JSON value; an object keeps its properties in order.\<close>

datatype json =
    JNum real
  | JStr string
  | JBool bool
  | JNull
  | JArr "json list"
  | JObj "(string \<times> json) list"

text \<open>
  \<^verbatim>\<open>client.name\<close> is undefined until \<^verbatim>\<open>register\<close>, which stores the declared name or a
  default made of a fixed prefix and the client id.
\<close>

datatype client_name = NameUndefined | DefaultName nat | Name string

record clientInfo =
  ci_id :: nat
  ci_type :: string
  ci_name :: client_name
  connectedAt :: real
  lastHeartbeat :: real

text \<open>
  An element of the \<^verbatim>\<open>frames\<close> array of the sequence file, by what
  \<^verbatim>\<open>Math.max(0, frame.time)\<close> does with it: \<^verbatim>\<open>null\<close>, on which reading \<^verbatim>\<open>time\<close> throws a
  TypeError; a frame whose \<^verbatim>\<open>time\<close> is a number; any other value, whose \<^verbatim>\<open>time\<close> is missing
  or does not convert to a number, so that the result is NaN.
\<close>

datatype frame_value = NullFrame | Frame FrameData | OddFrame json

text \<open>A JavaScript number that may be NaN.\<close>

datatype jsnum = Num real | NaN

fun timeNumber :: "frame_value \<Rightarrow> jsnum option" where
  "timeNumber NullFrame = None"
| "timeNumber (Frame f) = Some (Num (time f))"
| "timeNumber (OddFrame v) = Some NaN"

fun mathMax0 :: "jsnum \<Rightarrow> jsnum" where
  "mathMax0 (Num x) = Num (max 0 x)"
| "mathMax0 NaN = NaN"

text \<open>
  The messages the hub sends, by \<^verbatim>\<open>type\<close>, with their \<^verbatim>\<open>data\<close>. An \<^verbatim>\<open>error\<close> message is
  kept as its code and timestamp (the message texts are not ASCII).
\<close>

datatype hub_msg =
    MConnection nat real
  | MRegisterSuccess nat string client_name
  | MHeartbeatResponse real
  | MRobotStateUpdate "(string \<times> json) list"
  | MJointControlCommand "(string \<times> json) list"
  | MClientsList "clientInfo list"
  | MResetRobot nat
  | MEmergencyStop nat real
  | MSequenceStart json
  | MSequenceFrame frame_value
  | MSequenceComplete
  | MSequenceStopped real
  | MError string real

text \<open>
  The messages a client sends, after \<^verbatim>\<open>JSON.parse\<close>. The payload of \<^verbatim>\<open>robot_state\<close> and of
  \<^verbatim>\<open>joint_control\<close> is an object the hub does not look into; \<^verbatim>\<open>register\<close> carries an
  optional type and name.
\<close>

datatype client_msg =
    Register "string option" "string option"
  | Heartbeat
  | RobotState "(string \<times> json) list"
  | JointControl "(string \<times> json) list"
  | GetClients
  | ResetRobot
  | EmergencyStop
  | TestSequenceRequest
  | StopSequenceRequest
  | UnknownType string

text \<open>
  The closures handed to \<^verbatim>\<open>setTimeout\<close> by \<^verbatim>\<open>pushSequenceFrames\<close>: one per frame, and the
  one that reports completion; both close over the client id.
\<close>

datatype timer_action = SendFrame nat frame_value | SendComplete nat

fun timer_owner :: "timer_action \<Rightarrow> nat" where
  "timer_owner (SendFrame c f) = c"
| "timer_owner (SendComplete c) = c"

record timer =
  t_handle :: nat
  t_due :: real
  t_action :: timer_action

text \<open>
  What \<^verbatim>\<open>readFileSync\<close> and \<^verbatim>\<open>JSON.parse\<close> give for the sequence file: a failure (the
  file cannot be read or parsed, or holds \<^verbatim>\<open>null\<close>), or the \<^verbatim>\<open>meta\<close> value and the \<^verbatim>\<open>frames\<close>
  value. The latter is absent (or falsy, which \<^verbatim>\<open>|| []\<close> replaces by the empty array), an
  array, or something that is not an array: a value without \<^verbatim>\<open>forEach\<close> whose \<^verbatim>\<open>length\<close> is
  not 0, such as a number or an object.
\<close>

datatype frames_value = NotArray | Array "frame_value list"

datatype sequence_file = Unreadable | SequenceData json "frames_value option"

text \<open>
  The hub's state: the maps \<^verbatim>\<open>clients\<close> and \<^verbatim>\<open>sequenceTimers\<close> and the counter
  \<^verbatim>\<open>clientIdCounter\<close>; and around them the clock (\<^verbatim>\<open>Date.now()\<close>, milliseconds), the
  timers of the event loop that have neither run nor been cleared, in order of creation,
  the next timer handle, the sequence file on disk, and for the socket of each client id
  its \<^verbatim>\<open>readyState\<close> and the messages handed to its \<^verbatim>\<open>send\<close> while open. Client ids are
  never used twice, so the socket and the record a timer's closure holds are those found
  under its client id.
\<close>

record hub =
  clients :: "nat \<rightharpoonup> clientInfo"
  clientIdCounter :: nat
  sequenceTimers :: "nat \<rightharpoonup> nat list"
  now :: real
  pending :: "timer list"
  nextTimer :: nat
  sequenceFile :: sequence_file
  wsState :: "nat \<Rightarrow> readyState"
  outbox :: "nat \<Rightarrow> hub_msg list"

definition newHub :: "sequence_file \<Rightarrow> hub" where
  "newHub file =
     \<lparr>clients = Map.empty, clientIdCounter = 0, sequenceTimers = Map.empty, now = 0,
      pending = [], nextTimer = 0, sequenceFile = file, wsState = (\<lambda>c. CLOSED),
      outbox = (\<lambda>c. [])\<rparr>"

subsection \<open>Sockets and timers\<close>

text \<open>
  \<^verbatim>\<open>ws.send\<close> on a server-side socket: delivered while the socket is open, and discarded
  without an exception once it is closing or closed.
\<close>

definition wsSend :: "nat \<Rightarrow> hub_msg \<Rightarrow> hub \<Rightarrow> hub" where
  "wsSend c m h =
     (if wsState h c = OPEN then h\<lparr>outbox := (outbox h)(c := outbox h c @ [m])\<rparr> else h)"

definition sendError :: "nat \<Rightarrow> string \<Rightarrow> hub \<Rightarrow> hub" where
  "sendError c code h =
     (if wsState h c = OPEN then wsSend c (MError code (now h)) h else h)"

text \<open>
  \<^verbatim>\<open>setTimeout\<close> of Node.js: a delay that is not between 1 and \<^verbatim>\<open>TIMEOUT_MAX\<close> (so also
  NaN) is replaced by 1 millisecond.
\<close>

definition TIMEOUT_MAX :: real where
  "TIMEOUT_MAX = 2147483647"

fun timerDelay :: "jsnum \<Rightarrow> real" where
  "timerDelay (Num after) = (if 1 \<le> after \<and> after \<le> TIMEOUT_MAX then after else 1)"
| "timerDelay NaN = 1"

definition setTimeout :: "timer_action \<Rightarrow> jsnum \<Rightarrow> hub \<Rightarrow> hub \<times> nat" where
  "setTimeout act delay h =
     (h\<lparr>pending := pending h @
          [\<lparr>t_handle = nextTimer h, t_due = now h + timerDelay delay, t_action = act\<rparr>],
        nextTimer := Suc (nextTimer h)\<rparr>,
      nextTimer h)"

definition clearTimeout :: "nat \<Rightarrow> hub \<Rightarrow> hub" where
  "clearTimeout t h = h\<lparr>pending := filter (\<lambda>x. t_handle x \<noteq> t) (pending h)\<rparr>"

definition clearClientSequenceTimers :: "nat \<Rightarrow> hub \<Rightarrow> hub" where
  "clearClientSequenceTimers clientId h =
     (let h1 = (case sequenceTimers h clientId of
                  None \<Rightarrow> h
                | Some timers \<Rightarrow> fold clearTimeout timers h)
      in h1\<lparr>sequenceTimers := (sequenceTimers h1)(clientId := None)\<rparr>)"

text \<open>
  The keys of \<^verbatim>\<open>clients\<close> in the order \<^verbatim>\<open>forEach\<close> and \<^verbatim>\<open>values()\<close> visit them: the order of
  insertion, which is the order of the ids, all of them between 1 and the counter.
\<close>

definition clientIds :: "hub \<Rightarrow> nat list" where
  "clientIds h = filter (\<lambda>c. clients h c \<noteq> None) [1..<Suc (clientIdCounter h)]"

text \<open>
  \<^verbatim>\<open>broadcast\<close>: every client of the map other than \<^verbatim>\<open>excludeClientId\<close> whose socket is open
  is sent the message; each send touches the outbox of its own socket only.
\<close>

definition broadcast :: "hub_msg \<Rightarrow> nat option \<Rightarrow> hub \<Rightarrow> hub" where
  "broadcast message excludeClientId h =
     h\<lparr>outbox := (\<lambda>clientId.
          if clients h clientId \<noteq> None \<and> Some clientId \<noteq> excludeClientId \<and>
             wsState h clientId = OPEN
          then outbox h clientId @ [message] else outbox h clientId)\<rparr>"

subsection \<open>Message handlers\<close>

definition handleRegister :: "nat \<Rightarrow> string option \<Rightarrow> string option \<Rightarrow> hub \<Rightarrow> hub" where
  "handleRegister clientId dtype dname h =
     (case clients h clientId of
        None \<Rightarrow> h
      | Some client \<Rightarrow>
          (let ty = (case dtype of None \<Rightarrow> ''unknown''
                     | Some t \<Rightarrow> if t = [] then ''unknown'' else t);
               nm = (case dname of None \<Rightarrow> DefaultName clientId
                     | Some n \<Rightarrow> if n = [] then DefaultName clientId else Name n);
               h1 = h\<lparr>clients := (clients h)(clientId \<mapsto> client\<lparr>ci_type := ty, ci_name := nm\<rparr>)\<rparr>
           in wsSend clientId (MRegisterSuccess clientId ty nm) h1))"

definition handleHeartbeat :: "nat \<Rightarrow> hub \<Rightarrow> hub" where
  "handleHeartbeat clientId h =
     (case clients h clientId of
        None \<Rightarrow> h
      | Some client \<Rightarrow>
          wsSend clientId (MHeartbeatResponse (now h))
            (h\<lparr>clients := (clients h)(clientId \<mapsto> client\<lparr>lastHeartbeat := now h\<rparr>)\<rparr>))"

text \<open>
  The object literal \<^verbatim>\<open>{ sourceClientId: clientId, ...data }\<close>: the properties of \<^verbatim>\<open>data\<close> are
  copied in after \<^verbatim>\<open>sourceClientId\<close>, a property of the same name replacing the value.
\<close>

definition tagSource :: "nat \<Rightarrow> (string \<times> json) list \<Rightarrow> (string \<times> json) list" where
  "tagSource clientId data =
     fold (\<lambda>(k, v). AList.update k v) data [(''sourceClientId'', JNum (real clientId))]"

definition handleRobotState :: "nat \<Rightarrow> (string \<times> json) list \<Rightarrow> hub \<Rightarrow> hub" where
  "handleRobotState clientId data h =
     broadcast (MRobotStateUpdate (tagSource clientId data)) None h"

definition handleJointControl :: "nat \<Rightarrow> (string \<times> json) list \<Rightarrow> hub \<Rightarrow> hub" where
  "handleJointControl clientId data h =
     wsSend clientId (MJointControlCommand (tagSource clientId data)) h"

definition sendClientsList :: "nat \<Rightarrow> hub \<Rightarrow> hub" where
  "sendClientsList clientId h =
     (case clients h clientId of
        None \<Rightarrow> h
      | Some client \<Rightarrow>
          wsSend clientId (MClientsList (List.map_filter (clients h) (clientIds h))) h)"

definition handleResetRobot :: "nat \<Rightarrow> hub \<Rightarrow> hub" where
  "handleResetRobot clientId h =
     (case clients h clientId of
        None \<Rightarrow> h
      | Some client \<Rightarrow> wsSend clientId (MResetRobot clientId) h)"

definition handleEmergencyStop :: "nat \<Rightarrow> hub \<Rightarrow> hub" where
  "handleEmergencyStop clientId h =
     (case clients h clientId of
        None \<Rightarrow> h
      | Some client \<Rightarrow> wsSend clientId (MEmergencyStop clientId (now h)) h)"

text \<open>The nested function \<^verbatim>\<open>isConnected\<close> of \<^verbatim>\<open>pushSequenceFrames\<close>.\<close>

definition isConnected_hub :: "nat \<Rightarrow> hub \<Rightarrow> bool" where
  "isConnected_hub clientId h = (clients h clientId \<noteq> None \<and> wsState h clientId = OPEN)"

text \<open>What a timer's closure does when it runs.\<close>

fun fireTimer :: "timer_action \<Rightarrow> hub \<Rightarrow> hub" where
  "fireTimer (SendFrame clientId frame) h =
     (if \<not> isConnected_hub clientId h then h else wsSend clientId (MSequenceFrame frame) h)"
| "fireTimer (SendComplete clientId) h =
     (if \<not> isConnected_hub clientId h then h else wsSend clientId MSequenceComplete h)"

text \<open>
  The \<^verbatim>\<open>forEach\<close> of \<^verbatim>\<open>pushSequenceFrames\<close>: one \<^verbatim>\<open>setTimeout\<close> per frame with delay
  \<^verbatim>\<open>Math.max(0, frame.time)\<close>, its handle pushed onto the local array \<^verbatim>\<open>timers\<close>. At a
  \<^verbatim>\<open>null\<close> element \<^verbatim>\<open>frame.time\<close> throws: \<open>Inl\<close> carries the state at the throw, in which
  the timers set so far are pending.
\<close>

fun scheduleFrames ::
  "nat \<Rightarrow> frame_value list \<Rightarrow> hub \<Rightarrow> nat list \<Rightarrow> hub + hub \<times> nat list" where
  "scheduleFrames clientId [] h timers = Inr (h, timers)"
| "scheduleFrames clientId (frame # rest) h timers =
     (case timeNumber frame of
        None \<Rightarrow> Inl h
      | Some frameTime \<Rightarrow>
          (let delay = mathMax0 frameTime;
               (h1, t) = setTimeout (SendFrame clientId frame) delay h
           in scheduleFrames clientId rest h1 (timers @ [t])))"

text \<open>
  \<^verbatim>\<open>pushSequenceFrames\<close>. It throws a TypeError, after the old timers were cleared, when
  \<^verbatim>\<open>frames\<close> has no \<^verbatim>\<open>forEach\<close>, when an element is \<^verbatim>\<open>null\<close>, and on an empty array at
  \<^verbatim>\<open>frames[frames.length - 1].time\<close>; \<^verbatim>\<open>sequenceTimers.set\<close> is reached only without a throw.
\<close>

definition pushSequenceFrames :: "nat \<Rightarrow> frames_value \<Rightarrow> hub \<Rightarrow> hub + hub" where
  "pushSequenceFrames clientId frames h =
     (case clients h clientId of
        None \<Rightarrow> Inr h
      | Some client \<Rightarrow>
          (let h1 = clearClientSequenceTimers clientId h
           in (case frames of
                 NotArray \<Rightarrow> Inl h1
               | Array fs \<Rightarrow>
                   (case scheduleFrames clientId fs h1 [] of
                      Inl h2 \<Rightarrow> Inl h2
                    | Inr (h2, timers) \<Rightarrow>
                        (if fs = [] then Inl h2
                         else
                           (case timeNumber (last fs) of
                              None \<Rightarrow> Inl h2
                            | Some lastFrameTime \<Rightarrow>
                                (let (h3, completeTimer) =
                                       setTimeout (SendComplete clientId) (mathMax0 lastFrameTime) h2
                                 in Inr (h3\<lparr>sequenceTimers :=
                                      (sequenceTimers h3)(clientId \<mapsto> timers @ [completeTimer])\<rparr>))))))))"

text \<open>
  \<^verbatim>\<open>handleTestSequenceRequest\<close>: the \<^verbatim>\<open>catch\<close> answers \<^verbatim>\<open>SEQUENCE_ERROR\<close> to a failure of
  reading or parsing and to a throw of \<^verbatim>\<open>pushSequenceFrames\<close>, in the state the throw left.
\<close>

definition handleTestSequenceRequest :: "nat \<Rightarrow> hub \<Rightarrow> hub" where
  "handleTestSequenceRequest clientId h =
     (case clients h clientId of
        None \<Rightarrow> h
      | Some client \<Rightarrow>
          (case sequenceFile h of
             Unreadable \<Rightarrow> sendError clientId ''SEQUENCE_ERROR'' h
           | SequenceData meta framesField \<Rightarrow>
               (let frames = (case framesField of None \<Rightarrow> Array [] | Some v \<Rightarrow> v)
                in if frames = Array [] then sendError clientId ''EMPTY_SEQUENCE'' h
                   else
                     (case pushSequenceFrames clientId frames
                             (wsSend clientId (MSequenceStart meta) h) of
                        Inr h1 \<Rightarrow> h1
                      | Inl h1 \<Rightarrow> sendError clientId ''SEQUENCE_ERROR'' h1))))"

definition handleStopSequenceRequest :: "nat \<Rightarrow> hub \<Rightarrow> hub" where
  "handleStopSequenceRequest clientId h =
     (case clients h clientId of
        None \<Rightarrow> h
      | Some client \<Rightarrow>
          (let h1 = clearClientSequenceTimers clientId h
           in if wsState h1 clientId = OPEN
              then wsSend clientId (MSequenceStopped (now h1)) h1 else h1))"

fun handleMessage_hub :: "nat \<Rightarrow> client_msg \<Rightarrow> hub \<Rightarrow> hub" where
  "handleMessage_hub clientId message h =
     (case clients h clientId of
        None \<Rightarrow> h
      | Some client \<Rightarrow>
          (case message of
             Register dtype dname \<Rightarrow> handleRegister clientId dtype dname h
           | Heartbeat \<Rightarrow> handleHeartbeat clientId h
           | RobotState data \<Rightarrow> handleRobotState clientId data h
           | JointControl data \<Rightarrow> handleJointControl clientId data h
           | GetClients \<Rightarrow> sendClientsList clientId h
           | ResetRobot \<Rightarrow> handleResetRobot clientId h
           | EmergencyStop \<Rightarrow> handleEmergencyStop clientId h
           | TestSequenceRequest \<Rightarrow> handleTestSequenceRequest clientId h
           | StopSequenceRequest \<Rightarrow> handleStopSequenceRequest clientId h
           | UnknownType t \<Rightarrow> sendError clientId ''UNKNOWN_MESSAGE_TYPE'' h))"

subsection \<open>Connections, liveness and the passing of time\<close>

definition onConnection :: "hub \<Rightarrow> hub" where
  "onConnection h =
     (let clientId = clientIdCounter h + 1;
          info = \<lparr>ci_id = clientId, ci_type = ''unknown'', ci_name = NameUndefined,
                  connectedAt = now h, lastHeartbeat = now h\<rparr>;
          h1 = h\<lparr>clientIdCounter := clientId, clients := (clients h)(clientId \<mapsto> info),
                 wsState := (wsState h)(clientId := OPEN)\<rparr>
      in wsSend clientId (MConnection clientId (now h1)) h1)"

definition onClose :: "nat \<Rightarrow> hub \<Rightarrow> hub" where
  "onClose clientId h =
     (let wasDeleted = (clients h clientId \<noteq> None);
          h1 = h\<lparr>clients := (clients h)(clientId := None)\<rparr>
      in if wasDeleted then clearClientSequenceTimers clientId h1 else h1)"

text \<open>
  The body of the heartbeat check for one client: \<^verbatim>\<open>terminate()\<close> leaves the socket closing
  (its close event comes later).
\<close>

definition evictIfStale :: "nat \<Rightarrow> hub \<Rightarrow> hub" where
  "evictIfStale clientId h =
     (case clients h clientId of
        None \<Rightarrow> h
      | Some client \<Rightarrow>
          (if now h - lastHeartbeat client > 30000
           then clearClientSequenceTimers clientId
                  (h\<lparr>wsState := (wsState h)(clientId := CLOSING),
                     clients := (clients h)(clientId := None)\<rparr>)
           else h))"

definition heartbeatCheck :: "hub \<Rightarrow> hub" where
  "heartbeatCheck h = fold evictIfStale (clientIds h) h"

text \<open>
  Time passes: the clock moves on by \<open>dt\<close> and the timers that have come due run, earliest
  first and in order of creation among equal due times. (The closures neither read the
  clock nor set or clear timers.)
\<close>

definition advance :: "real \<Rightarrow> hub \<Rightarrow> hub" where
  "advance dt h =
     (let target = now h + max 0 dt;
          due = filter (\<lambda>t. t_due t \<le> target) (pending h);
          later = filter (\<lambda>t. \<not> t_due t \<le> target) (pending h)
      in fold (\<lambda>t. fireTimer (t_action t)) (sort_key t_due due)
           (h\<lparr>pending := later, now := target\<rparr>))"

text \<open>
  What can happen to the hub: a client connects; a message arrives on the socket of a
  client id, parsed or not; a socket starts closing; a socket's close event; the
  periodic heartbeat check; time passing; the sequence file changing on disk. A socket
  that has closed delivers nothing more and closes only once.
\<close>

datatype hub_event =
    Connection
  | Message nat client_msg
  | BadMessage nat
  | SocketClosing nat
  | Close nat
  | HeartbeatCheck
  | Advance real
  | FileChanged sequence_file

fun hub_step :: "hub_event \<Rightarrow> hub \<Rightarrow> hub" where
  "hub_step Connection h = onConnection h"
| "hub_step (Message c m) h =
     (if wsState h c = CLOSED then h else handleMessage_hub c m h)"
| "hub_step (BadMessage c) h =
     (if wsState h c = CLOSED then h else sendError c ''PARSE_ERROR'' h)"
| "hub_step (SocketClosing c) h =
     (if wsState h c = OPEN then h\<lparr>wsState := (wsState h)(c := CLOSING)\<rparr> else h)"
| "hub_step (Close c) h =
     (if wsState h c = CLOSED then h
      else onClose c (h\<lparr>wsState := (wsState h)(c := CLOSED)\<rparr>))"
| "hub_step HeartbeatCheck h = heartbeatCheck h"
| "hub_step (Advance dt) h = advance dt h"
| "hub_step (FileChanged file) h = h\<lparr>sequenceFile := file\<rparr>"

definition hub_run :: "hub_event list \<Rightarrow> hub \<Rightarrow> hub" where
  "hub_run es h = fold hub_step es h"


section \<open>Definitions used by the proofs\<close>

text \<open>
  What holds of the timelines in every state of the queue: GSAP plays none, or the queue
  has its arm and GSAP plays exactly the timeline in the arm's slot.
\<close>

definition queue_inv :: "JointAnimationQueue \<Rightarrow> bool" where
  "queue_inv s =
     (gsap s = [] \<or> (robotArm s \<and> map (\<lambda>p. Some (fst p)) (gsap s) = [timeline (arm s)]))"

text \<open>The two calls \<^verbatim>\<open>stop\<close> makes on the arm.\<close>

definition stopArm :: "JointAnimationQueue \<Rightarrow> JointAnimationQueue" where
  "stopArm s = stopAllJointAnimations (stopAnimation s)"

text \<open>Concrete values for the examples: an arm with three joints, frames, a queue at play.\<close>

definition demoArm :: RobotArm where
  "demoArm = \<lparr>jointConfigs = [''joint1'', ''joint2'', ''joint3''], timeline = None,
               gripperAnimationTimeline = None\<rparr>"

definition demoFrame :: "int \<Rightarrow> real \<Rightarrow> io_flags option \<Rightarrow> FrameData" where
  "demoFrame n t flags =
     \<lparr>frame_id = n, time = t, joints = [0, 0, 0], cartesian = None, io = flags\<rparr>"

definition playingQueue :: "FrameData option \<Rightarrow> FrameData list \<Rightarrow> JointAnimationQueue" where
  "playingQueue lastp fs =
     (newQueue demoArm)\<lparr>robotArm := True, status := Playing, animationLoopId := Some (),
                         lastProcessedFrame := lastp, frameQueue := fs\<rparr>"

text \<open>
  For the runs of the client in which every attempt fails. \<open>allClosed\<close>: every socket has
  closed; \<open>oneLive\<close>: every socket but the newest has. \<open>linked\<close> is a client at the start of
  such a run: one socket connecting or open, the attempt count at zero, no manual
  disconnect, no reconnection timer pending. \<open>failedCount\<close> counts the emitted
  \<^verbatim>\<open>reconnect_failed\<close> events.
\<close>

definition allClosed :: "readyState list \<Rightarrow> bool" where
  "allClosed socks = list_all (\<lambda>r. r = CLOSED) socks"

definition oneLive :: "readyState list \<Rightarrow> bool" where
  "oneLive socks = (socks \<noteq> [] \<and> last socks \<noteq> CLOSED \<and> allClosed (butlast socks))"

definition linked :: "WebSocketClient \<Rightarrow> bool" where
  "linked c =
     (reconnectAttempts c = 0 \<and> \<not> isManualDisconnect c \<and> reconnectTimers c = 0 \<and>
      oneLive (sockets c))"

definition failedCount :: "WebSocketClient \<Rightarrow> nat" where
  "failedCount c = count_list (emitted c) ''reconnect_failed''"

text \<open>
  The three phases of such a run, counted from \<open>n0\<close> timer-driven attempts and \<open>f0\<close>
  failure events at its start: an attempt is under way; a reconnection timer is pending;
  the attempts are used up.
\<close>

definition failing_phase :: "nat \<Rightarrow> nat \<Rightarrow> WebSocketClient \<Rightarrow> bool" where
  "failing_phase n0 f0 s =
     (\<not> isManualDisconnect s \<and>
      ((reconnectTimers s = 0 \<and> oneLive (sockets s) \<and>
        timerConnects s = n0 + reconnectAttempts s \<and> reconnectAttempts s \<le> 3 \<and>
        failedCount s = f0) \<or>
       (reconnectTimers s = 1 \<and> allClosed (sockets s) \<and>
        timerConnects s + 1 = n0 + reconnectAttempts s \<and> reconnectAttempts s \<le> 3 \<and>
        failedCount s = f0) \<or>
       (reconnectTimers s = 0 \<and> allClosed (sockets s) \<and>
        timerConnects s = n0 + 3 \<and> reconnectAttempts s = 3 \<and> failedCount s = f0 + 1)))"

text \<open>
  For the hub. \<open>oldTimers\<close> is the list \<^verbatim>\<open>sequenceTimers\<close> holds for a client (none if there
  is no entry). \<open>tracked\<close>: every timer that can still run is listed under the client its
  closure sends to. \<open>noTimersFor\<close>: no timer that can still run sends to the client.
\<close>

definition oldTimers :: "hub \<Rightarrow> nat \<Rightarrow> nat list" where
  "oldTimers h c = (case sequenceTimers h c of None \<Rightarrow> [] | Some ts \<Rightarrow> ts)"

definition tracked :: "hub \<Rightarrow> bool" where
  "tracked h =
     list_all (\<lambda>t. t_handle t \<in> set (oldTimers h (timer_owner (t_action t)))) (pending h)"

definition noTimersFor :: "nat \<Rightarrow> hub \<Rightarrow> bool" where
  "noTimersFor c h = list_all (\<lambda>t. timer_owner (t_action t) \<noteq> c) (pending h)"

text \<open>
  The timers \<^verbatim>\<open>pushSequenceFrames\<close> sets for a list of frames with numeric times, given
  their handles, and the one it sets last.
\<close>

definition frameTimers :: "hub \<Rightarrow> nat \<Rightarrow> FrameData list \<Rightarrow> timer list" where
  "frameTimers h c frames =
     map (\<lambda>(t, frame). \<lparr>t_handle = t, t_due = now h + timerDelay (Num (max 0 (time frame))),
                          t_action = SendFrame c (Frame frame)\<rparr>)
       (zip [nextTimer h ..< nextTimer h + length frames] frames)"

definition completeTimer :: "hub \<Rightarrow> nat \<Rightarrow> FrameData list \<Rightarrow> timer" where
  "completeTimer h c frames =
     \<lparr>t_handle = nextTimer h + length frames,
      t_due = now h + timerDelay (Num (max 0 (time (last frames)))),
      t_action = SendComplete c\<rparr>"

text \<open>
  Concrete values for the examples: a sequence file with frames at 0, 100, 250 and 500 ms
  (three joint angles each, as \<open>demoArm\<close> has joints); a hub on which client 1 has asked
  for that sequence; a frame with a single joint angle; a frame object whose time is a
  string; a file whose second frame is \<^verbatim>\<open>null\<close>; a file with a frame 3000000000 ms out.
\<close>

definition demoFile :: sequence_file where
  "demoFile =
     SequenceData JNull
       (Some (Array [Frame (demoFrame 1 0 None), Frame (demoFrame 2 100 None),
                     Frame (demoFrame 3 250 None), Frame (demoFrame 4 500 None)]))"

definition hubPlaying :: hub where
  "hubPlaying = hub_run [Connection, Message 1 TestSequenceRequest] (newHub demoFile)"

definition shortFrame :: FrameData where
  "shortFrame = \<lparr>frame_id = 9, time = 40, joints = [1 / 2], cartesian = None, io = None\<rparr>"

definition untimedFrame :: json where
  "untimedFrame =
     JObj [(''id'', JNum 1), (''time'', JStr ''soon''), (''joints'', JArr [JNum 0, JNum 0, JNum 0])]"

definition leakFile :: sequence_file where
  "leakFile = SequenceData JNull (Some (Array [Frame (demoFrame 1 1000 None), NullFrame]))"


section \<open>Properties of the Frame Animation Queue\<close>

subsection \<open>The arm's timeline slot\<close>

lemma strip_comp:
  "(\<lambda>(h, tr). (h, tr\<lparr>tr_tweens := filter P (tr_tweens tr)\<rparr>)) \<circ>
   (\<lambda>(h, tr). (h, tr\<lparr>tr_tweens := filter P (tr_tweens tr)\<rparr>)) =
   (\<lambda>(h, tr). (h, tr\<lparr>tr_tweens := filter P (tr_tweens tr)\<rparr>))"
  by (auto simp: fun_eq_iff)

lemma stopAnimationLoop_eq: "stopAnimationLoop s = s\<lparr>animationLoopId := None\<rparr>"
  by (cases "animationLoopId s") (simp_all add: stopAnimationLoop_def)

lemma killArmTimeline_timeline [simp]: "timeline (arm (killArmTimeline s)) = None"
  by (cases "timeline (arm s)") (simp_all add: killArmTimeline_def Let_def)

lemma killArmTimeline_None: "timeline (arm s) = None \<Longrightarrow> killArmTimeline s = s"
  by (simp add: killArmTimeline_def)

lemma killArmTimeline_fields [simp]:
  "robotArm (killArmTimeline s) = robotArm s"
  "status (killArmTimeline s) = status s"
  "frameQueue (killArmTimeline s) = frameQueue s"
  "animationLoopId (killArmTimeline s) = animationLoopId s"
  "jointConfigs (arm (killArmTimeline s)) = jointConfigs (arm s)"
  "gsapNext (killArmTimeline s) = gsapNext s"
  "lastProcessedFrame (killArmTimeline s) = lastProcessedFrame s"
  by (cases "timeline (arm s)"; cases "map_of (gsap s) (the (timeline (arm s)))";
      simp add: killArmTimeline_def Let_def gsapKill_def)+

lemma killArmTimeline_isProcessing: "\<not> isProcessing s \<Longrightarrow> \<not> isProcessing (killArmTimeline s)"
  by (cases "timeline (arm s)"; cases "map_of (gsap s) (the (timeline (arm s)))";
      simp add: killArmTimeline_def Let_def gsapKill_def)

lemma stopArm_fields [simp]:
  "robotArm (stopArm s) = robotArm s"
  "status (stopArm s) = status s"
  "frameQueue (stopArm s) = frameQueue s"
  "animationLoopId (stopArm s) = animationLoopId s"
  "timeline (arm (stopArm s)) = None"
  by (simp_all add: stopArm_def stopAllJointAnimations_def stopAnimation_def)

lemma stopArm_isProcessing: "\<not> isProcessing s \<Longrightarrow> \<not> isProcessing (stopArm s)"
  by (simp add: stopArm_def stopAllJointAnimations_def stopAnimation_def killArmTimeline_isProcessing)

lemma stopArm_idem: "stopArm (stopArm s) = stopArm s"
  by (simp add: stopArm_def stopAllJointAnimations_def stopAnimation_def killArmTimeline_None
      strip_comp)

lemma stop_not_idle:
  "status s \<noteq> Idle \<Longrightarrow>
   stop s = (let s2 = (if robotArm s then stopArm (s\<lparr>status := Stopped, isProcessing := False\<rparr>)
                        else s\<lparr>status := Stopped, isProcessing := False\<rparr>)
             in s2\<lparr>animationLoopId := None, frameQueue := []\<rparr>)"
  by (simp add: stop_def Let_def stopArm_def clearQueue_def stopAnimationLoop_eq)

lemma stopArm_upd:
  "stopArm (s\<lparr>animationLoopId := a, frameQueue := q\<rparr>) = (stopArm s)\<lparr>animationLoopId := a, frameQueue := q\<rparr>"
  by (cases "timeline (arm s)"; cases "map_of (gsap s) (the (timeline (arm s)))";
      simp add: stopArm_def stopAllJointAnimations_def stopAnimation_def killArmTimeline_def Let_def gsapKill_def)

lemma stop_stop: "stop (stop s) = stop s"
proof (cases "status s = Idle")
  case True
  then show ?thesis by (simp add: stop_def)
next
  case False
  show ?thesis
  proof (cases "robotArm s")
    case True
    let ?t = "stopArm (s\<lparr>status := Stopped, isProcessing := False\<rparr>)"
    have st: "stop s = ?t\<lparr>animationLoopId := None, frameQueue := []\<rparr>"
      using False True by (simp add: stop_not_idle)
    have f: "status ?t = Stopped" "\<not> isProcessing ?t" "robotArm ?t"
      using True by (simp_all add: stopArm_isProcessing)
    have "stop (?t\<lparr>animationLoopId := None, frameQueue := []\<rparr>) =
          (stopArm ((?t\<lparr>animationLoopId := None, frameQueue := []\<rparr>)\<lparr>status := Stopped, isProcessing := False\<rparr>))
            \<lparr>animationLoopId := None, frameQueue := []\<rparr>"
      using f by (simp add: stop_not_idle)
    also have "(?t\<lparr>animationLoopId := None, frameQueue := []\<rparr>)\<lparr>status := Stopped, isProcessing := False\<rparr>
         = ?t\<lparr>animationLoopId := None, frameQueue := []\<rparr>"
      using f by simp
    also have "stopArm (?t\<lparr>animationLoopId := None, frameQueue := []\<rparr>) =
               ?t\<lparr>animationLoopId := None, frameQueue := []\<rparr>"
      by (simp add: stopArm_upd stopArm_idem)
    finally show ?thesis using st by simp
  next
    case nr: False
    then show ?thesis using False by (simp add: stop_not_idle)
  qed
qed

subsection \<open>The invariant of the timelines\<close>

lemma queue_inv_cases:
  assumes "queue_inv s"
  obtains (idle) "gsap s = []"
  | (busy) h tr where "gsap s = [(h, tr)]" "robotArm s" "timeline (arm s) = Some h"
  using assms unfolding queue_inv_def
  by (cases "gsap s") auto

lemma queue_inv_new: "queue_inv (newQueue a)"
  by (simp add: queue_inv_def newQueue_def)

lemma killArmTimeline_clears:
  assumes "queue_inv s"
  shows "gsap (killArmTimeline s) = []"
  using assms
  by (cases rule: queue_inv_cases) (auto simp: killArmTimeline_def gsapKill_def Let_def split: option.splits)

lemma killArmTimeline_robotArm: "robotArm (killArmTimeline s) = robotArm s"
  by (auto simp: killArmTimeline_def gsapKill_def Let_def split: option.splits)

lemma animateMultipleJoints_one:
  assumes "queue_inv s"
  shows "\<exists>tr. gsap (animateMultipleJoints ja d f s) = [(gsapNext (killArmTimeline s), tr)] \<and>
              timeline (arm (animateMultipleJoints ja d f s)) = Some (gsapNext (killArmTimeline s)) \<and>
              robotArm (animateMultipleJoints ja d f s) = robotArm s"
  using killArmTimeline_clears[OF assms]
  by (simp add: animateMultipleJoints_def Let_def killArmTimeline_robotArm)

lemma executeFrame_inv:
  assumes "queue_inv s"
  shows "queue_inv (executeFrame f n s)"
proof (cases "robotArm s")
  case False
  then show ?thesis using assms by (simp add: executeFrame_def queue_inv_def)
next
  case True
  let ?ja = "buildJointAngles (jointConfigs (arm s)) 0 (joints f) []"
  let ?d = "calculateFrameDuration s f n"
  obtain tr where t: "gsap (animateMultipleJoints ?ja ?d f s) = [(gsapNext (killArmTimeline s), tr)]"
              "timeline (arm (animateMultipleJoints ?ja ?d f s)) = Some (gsapNext (killArmTimeline s))"
              "robotArm (animateMultipleJoints ?ja ?d f s)"
    using animateMultipleJoints_one[OF assms, of ?ja ?d f] True by auto
  then have "queue_inv (animateMultipleJoints ?ja ?d f s)"
    by (simp add: queue_inv_def)
  moreover have "\<And>g t. queue_inv t \<Longrightarrow> queue_inv (animateGripperOpenness g (5/10) t)"
    by (simp add: queue_inv_def animateGripperOpenness_def)
  ultimately show ?thesis using True
    by (simp add: executeFrame_def Let_def split: option.splits)
qed

lemma flags_inv:
  "queue_inv (s\<lparr>isProcessing := b\<rparr>) = queue_inv s"
  "queue_inv (s\<lparr>frameQueue := q\<rparr>) = queue_inv s"
  "queue_inv (s\<lparr>status := st\<rparr>) = queue_inv s"
  "queue_inv (s\<lparr>animationLoopId := l\<rparr>) = queue_inv s"
  "queue_inv (s\<lparr>lastProcessedFrame := lp\<rparr>) = queue_inv s"
  by (simp_all add: queue_inv_def)

lemma processQueue_inv:
  assumes "queue_inv s"
  shows "queue_inv (processQueue s)"
  using assms
  by (simp add: processQueue_def executeFrame_inv flags_inv split: list.splits)

lemma loop_inv: "queue_inv s \<Longrightarrow> queue_inv (loop s)"
  by (simp add: loop_def Let_def flags_inv processQueue_inv)

lemma gsapKill_inv: "queue_inv s \<Longrightarrow> queue_inv (gsapKill h s)"
  by (erule queue_inv_cases) (auto simp: gsapKill_def queue_inv_def split: option.splits)

lemma timelineComplete_inv: "queue_inv s \<Longrightarrow> queue_inv (timelineComplete h s)"
  by (erule queue_inv_cases) (auto simp: timelineComplete_def queue_inv_def split: option.splits)

lemma stop_inv: "queue_inv s \<Longrightarrow> queue_inv (stop s)"
proof (cases "status s = Idle")
  case True
  assume "queue_inv s"
  then show ?thesis using True by (simp add: stop_def)
next
  case False
  assume a: "queue_inv s"
  show ?thesis
  proof (cases "robotArm s")
    case True
    have "gsap (killArmTimeline (s\<lparr>status := Stopped, isProcessing := False\<rparr>)) = []"
      by (rule killArmTimeline_clears) (simp add: flags_inv a)
    then have "gsap (stopArm (s\<lparr>status := Stopped, isProcessing := False\<rparr>)) = []"
      by (simp add: stopArm_def stopAllJointAnimations_def stopAnimation_def)
    then show ?thesis using False True
      by (simp add: stop_not_idle queue_inv_def)
  next
    case nr: False
    then show ?thesis using False a by (simp add: stop_not_idle flags_inv)
  qed
qed

lemma queue_step_inv: "queue_inv s \<Longrightarrow> queue_inv (queue_step e s)"
proof (cases e)
  case SetRobotArm
  assume "queue_inv s"
  then show ?thesis using SetRobotArm
    by (auto simp: setRobotArm_def queue_inv_def split: list.splits)
next
  case StartSequence
  assume "queue_inv s"
  then show ?thesis using StartSequence
    by (cases "animationLoopId s") (simp_all add: startSequence_def startAnimationLoop_def flags_inv)
next
  case (EnqueueFrame f)
  assume "queue_inv s"
  then show ?thesis using EnqueueFrame by (simp add: enqueueFrame_def flags_inv)
next
  case AnimationFrame
  assume "queue_inv s"
  then show ?thesis using AnimationFrame by (simp add: loop_inv split: option.splits)
next
  case (TimelineComplete h)
  assume "queue_inv s"
  then show ?thesis using TimelineComplete by (simp add: timelineComplete_inv)
next
  case (TimelineKilled h)
  assume "queue_inv s"
  then show ?thesis using TimelineKilled by (simp add: gsapKill_inv)
next
  case Stop
  assume "queue_inv s"
  then show ?thesis using Stop by (simp add: stop_inv)
next
  case ClearQueue
  assume "queue_inv s"
  then show ?thesis using ClearQueue by (simp add: clearQueue_def flags_inv)
qed

lemma queue_run_inv: "queue_inv s \<Longrightarrow> queue_inv (queue_run es s)"
  unfolding queue_run_def
  by (induction es arbitrary: s) (simp_all add: queue_step_inv)

lemma queue_inv_length: "queue_inv s \<Longrightarrow> length (gsap s) \<le> 1"
  by (erule queue_inv_cases) simp_all

lemma loop_blocked: "isProcessing s \<Longrightarrow> queue_step AnimationFrame s = s"
  by (cases "animationLoopId s") (simp_all add: loop_def)

lemma ticks_blocked: "isProcessing s \<Longrightarrow> fold queue_step (replicate k AnimationFrame) s = s"
  by (induction k) (simp_all add: loop_blocked del: queue_step.simps)

lemma burst:
  "queue_run (SetRobotArm # StartSequence # map EnqueueFrame [f1, f2, f3, f4, f5] @
              replicate (Suc k) AnimationFrame) (newQueue a) = s \<Longrightarrow>
   length (gsap s) = 1 \<and> frameQueue s = [f2, f3, f4, f5] \<and> isProcessing s \<and>
   tr_frame (snd (hd (gsap s))) = f1"
proof -
  let ?s1 = "fold queue_step (SetRobotArm # StartSequence # map EnqueueFrame [f1, f2, f3, f4, f5] @ [AnimationFrame]) (newQueue a)"
  have p: "isProcessing ?s1 \<and> length (gsap ?s1) = 1 \<and> frameQueue ?s1 = [f2, f3, f4, f5] \<and> tr_frame (snd (hd (gsap ?s1))) = f1"
    by (simp add: newQueue_def setRobotArm_def startSequence_def startAnimationLoop_def
        enqueueFrame_def loop_def processQueue_def executeFrame_def Let_def
        animateMultipleJoints_def killArmTimeline_def gsapKill_def animateGripperOpenness_def
        split: option.splits)
  assume "queue_run (SetRobotArm # StartSequence # map EnqueueFrame [f1, f2, f3, f4, f5] @
              replicate (Suc k) AnimationFrame) (newQueue a) = s"
  then have "s = fold queue_step (replicate k AnimationFrame) ?s1"
    by (simp add: queue_run_def del: queue_step.simps)
  then have "s = ?s1" using p ticks_blocked by simp
  then show ?thesis using p by simp
qed


subsection \<open>The transition a dequeued frame starts\<close>

lemma processQueue_starts:
  assumes "robotArm s" "\<not> isProcessing s" "frameQueue s = cur # rest"
  shows "snd (last (gsap (processQueue s))) =
           \<lparr>tr_tweens = filter (\<lambda>p. fst p \<in> set (jointConfigs (arm s)))
                          (buildJointAngles (jointConfigs (arm s)) 0 (joints cur) []),
            tr_duration = calculateFrameDuration s cur (case rest of [] \<Rightarrow> None | nxt # _ \<Rightarrow> Some nxt),
            tr_frame = cur\<rparr>"
  using assms
  by (auto simp: processQueue_def executeFrame_def animateMultipleJoints_def Let_def
      killArmTimeline_def gsapKill_def animateGripperOpenness_def calculateFrameDuration_def
      split: option.splits list.splits)

lemma processQueue_duration:
  assumes "robotArm s \<and> \<not> isProcessing s \<and> frameQueue s = cur # rest"
  shows "tr_frame (snd (last (gsap (processQueue s)))) = cur \<and>
      tr_duration (snd (last (gsap (processQueue s)))) =
        (case lastProcessedFrame s of
           None \<Rightarrow> 1
         | Some lastp \<Rightarrow>
             (case rest of
                nxt # _ \<Rightarrow> max (1 / 10) ((time nxt - time cur) / 1000)
              | [] \<Rightarrow> max (1 / 10) ((time cur - time lastp) / 1000)))"
proof -
  from assms have e: "snd (last (gsap (processQueue s))) =
           \<lparr>tr_tweens = filter (\<lambda>p. fst p \<in> set (jointConfigs (arm s)))
                          (buildJointAngles (jointConfigs (arm s)) 0 (joints cur) []),
            tr_duration = calculateFrameDuration s cur (case rest of [] \<Rightarrow> None | nxt # _ \<Rightarrow> Some nxt),
            tr_frame = cur\<rparr>"
    by (intro processQueue_starts) simp_all
  show ?thesis unfolding e
    by (simp add: calculateFrameDuration_def split: option.splits list.splits)
qed

subsection \<open>Claims about the queue\<close>

text \<open>
  C3. The transition started for a dequeued frame lasts 1 second when no frame has been
  processed yet (\<^verbatim>\<open>lastProcessedFrame\<close> is empty), whatever the frame's time; otherwise
  the gap to the next buffered frame in seconds if there is one, else the gap from the
  last processed frame, each at least 0.1 seconds. A frame at 100 ms followed by one at
  350 ms gets 0.25 s, and a gap of 50 ms from the last processed frame gets 0.1 s.
\<close>

theorem frame_duration:
  "(robotArm s \<and> \<not> isProcessing s \<and> frameQueue s = cur # rest \<longrightarrow>
      tr_frame (snd (last (gsap (processQueue s)))) = cur \<and>
      tr_duration (snd (last (gsap (processQueue s)))) =
        (case lastProcessedFrame s of
           None \<Rightarrow> 1
         | Some lastp \<Rightarrow>
             (case rest of
                nxt # _ \<Rightarrow> max (1 / 10) ((time nxt - time cur) / 1000)
              | [] \<Rightarrow> max (1 / 10) ((time cur - time lastp) / 1000)))) \<and>
   (lastProcessedFrame s = None \<longrightarrow> calculateFrameDuration s cur nextFrame = 1) \<and>
   (lastProcessedFrame s = Some lastp \<and> time cur = 100 \<and> time nxt = 350 \<longrightarrow>
      calculateFrameDuration s cur (Some nxt) = 25 / 100) \<and>
   (lastProcessedFrame s = Some lastp \<and> time cur - time lastp = 50 \<longrightarrow>
      calculateFrameDuration s cur None = 1 / 10)"
proof -
  have b: "lastProcessedFrame s = None \<longrightarrow> calculateFrameDuration s cur nextFrame = 1"
    by (simp add: calculateFrameDuration_def)
  have c: "lastProcessedFrame s = Some lastp \<and> time cur = 100 \<and> time nxt = 350 \<longrightarrow>
      calculateFrameDuration s cur (Some nxt) = 25 / 100"
    by (simp add: calculateFrameDuration_def)
  have d: "lastProcessedFrame s = Some lastp \<and> time cur - time lastp = 50 \<longrightarrow>
      calculateFrameDuration s cur None = 1 / 10"
    by (simp add: calculateFrameDuration_def)
  show ?thesis
    by (rule conjI[OF impI[OF processQueue_duration] conjI[OF b conjI[OF c d]]])
qed

theorem frame_duration_witness:
  "tr_duration (snd (last (gsap (processQueue
      (playingQueue None [demoFrame 1 5000 None, demoFrame 2 9000 None]))))) = 1 \<and>
   tr_duration (snd (last (gsap (processQueue
      (playingQueue (Some (demoFrame 0 0 None)) [demoFrame 1 100 None, demoFrame 2 350 None]))))) = 25 / 100 \<and>
   calculateFrameDuration (playingQueue (Some (demoFrame 0 0 None)) [])
      (demoFrame 1 100 None) (Some (demoFrame 2 350 None)) = 25 / 100 \<and>
   calculateFrameDuration (playingQueue (Some (demoFrame 0 950 None)) [])
      (demoFrame 1 1000 None) None = 1 / 10 \<and>
   calculateFrameDuration (playingQueue None []) (demoFrame 1 5000 None) None = 1"
  using frame_duration [of "playingQueue None [demoFrame 1 5000 None, demoFrame 2 9000 None]"
      "demoFrame 1 5000 None" "[demoFrame 2 9000 None]" None undefined undefined]
    frame_duration [of "playingQueue (Some (demoFrame 0 0 None)) [demoFrame 1 100 None, demoFrame 2 350 None]"
      "demoFrame 1 100 None" "[demoFrame 2 350 None]" None "demoFrame 0 0 None" "demoFrame 2 350 None"]
    frame_duration [of "playingQueue (Some (demoFrame 0 950 None)) []"
      "demoFrame 1 1000 None" "[]" None "demoFrame 0 950 None" undefined]
    frame_duration [of "playingQueue None []" "demoFrame 1 5000 None" "[]" None undefined undefined]
  by (simp add: playingQueue_def newQueue_def demoFrame_def calculateFrameDuration_def)

text \<open>
  What does hold of the timelines: in every state the queue can reach from its creation
  GSAP plays at most one of them; a run of the loop with the processing flag set changes
  nothing; and five frames enqueued on a fresh sequence leave, after any number of loop
  runs with no transition ending, one transition in flight and four frames buffered.
\<close>

lemma timelines_at_most_one:
  "length (gsap (queue_run es (newQueue a))) \<le> 1 \<and>
   (isProcessing (queue_run es (newQueue a)) \<longrightarrow>
      queue_step AnimationFrame (queue_run es (newQueue a)) = queue_run es (newQueue a)) \<and>
   length (gsap (queue_run (SetRobotArm # StartSequence # map EnqueueFrame [f1, f2, f3, f4, f5] @
                            replicate (Suc k) AnimationFrame) (newQueue a))) = 1 \<and>
   frameQueue (queue_run (SetRobotArm # StartSequence # map EnqueueFrame [f1, f2, f3, f4, f5] @
                          replicate (Suc k) AnimationFrame) (newQueue a)) = [f2, f3, f4, f5]"
proof -
  have a: "length (gsap (queue_run es (newQueue a))) \<le> 1"
    by (intro queue_inv_length queue_run_inv queue_inv_new)
  have b: "isProcessing (queue_run es (newQueue a)) \<longrightarrow>
      queue_step AnimationFrame (queue_run es (newQueue a)) = queue_run es (newQueue a)"
    using loop_blocked by blast
  note c = burst [OF refl, of f1 f2 f3 f4 f5 k a]
  show ?thesis using a b c by simp
qed

text \<open>
  C7, at its failing input. A sequence is started and its first frame is in transition
  when \<^verbatim>\<open>startSequence\<close> is called again (a second \<^verbatim>\<open>sequence_start\<close> from the hub), which
  lowers the processing flag and leaves the transition running. Five frames are enqueued.
  The next run of the loop dequeues the first of them; starting its transition kills the
  old timeline, whose \<^verbatim>\<open>onInterrupt\<close> lowers the flag that \<^verbatim>\<open>processQueue\<close> had just raised.
  So the new transition is in flight with the flag down, and each further run of the loop
  dequeues the next frame and kills the transition before it: after five runs all five
  frames are gone from the buffer and none has completed.
\<close>

theorem restart_defeats_processing_flag:
  "isProcessing (queue_run [SetRobotArm, StartSequence, EnqueueFrame (demoFrame 1 0 None),
      AnimationFrame] (newQueue demoArm)) \<and>
   \<not> isProcessing (queue_run [SetRobotArm, StartSequence, EnqueueFrame (demoFrame 1 0 None),
      AnimationFrame, StartSequence] (newQueue demoArm)) \<and>
   map (\<lambda>p. frame_id (tr_frame (snd p))) (gsap (queue_run [SetRobotArm, StartSequence,
      EnqueueFrame (demoFrame 1 0 None), AnimationFrame, StartSequence] (newQueue demoArm))) = [1] \<and>
   \<not> isProcessing (queue_run [SetRobotArm, StartSequence, EnqueueFrame (demoFrame 1 0 None),
      AnimationFrame, StartSequence, EnqueueFrame (demoFrame 2 0 None),
      EnqueueFrame (demoFrame 3 100 None), EnqueueFrame (demoFrame 4 200 None),
      EnqueueFrame (demoFrame 5 300 None), EnqueueFrame (demoFrame 6 400 None),
      AnimationFrame] (newQueue demoArm)) \<and>
   map (\<lambda>p. frame_id (tr_frame (snd p))) (gsap (queue_run [SetRobotArm, StartSequence,
      EnqueueFrame (demoFrame 1 0 None), AnimationFrame, StartSequence,
      EnqueueFrame (demoFrame 2 0 None), EnqueueFrame (demoFrame 3 100 None),
      EnqueueFrame (demoFrame 4 200 None), EnqueueFrame (demoFrame 5 300 None),
      EnqueueFrame (demoFrame 6 400 None), AnimationFrame] (newQueue demoArm))) = [2] \<and>
   map frame_id (frameQueue (queue_run [SetRobotArm, StartSequence,
      EnqueueFrame (demoFrame 1 0 None), AnimationFrame, StartSequence,
      EnqueueFrame (demoFrame 2 0 None), EnqueueFrame (demoFrame 3 100 None),
      EnqueueFrame (demoFrame 4 200 None), EnqueueFrame (demoFrame 5 300 None),
      EnqueueFrame (demoFrame 6 400 None), AnimationFrame] (newQueue demoArm))) = [3, 4, 5, 6] \<and>
   frameQueue (queue_run [SetRobotArm, StartSequence,
      EnqueueFrame (demoFrame 1 0 None), AnimationFrame, StartSequence,
      EnqueueFrame (demoFrame 2 0 None), EnqueueFrame (demoFrame 3 100 None),
      EnqueueFrame (demoFrame 4 200 None), EnqueueFrame (demoFrame 5 300 None),
      EnqueueFrame (demoFrame 6 400 None), AnimationFrame, AnimationFrame, AnimationFrame,
      AnimationFrame, AnimationFrame] (newQueue demoArm)) = [] \<and>
   map (\<lambda>p. frame_id (tr_frame (snd p))) (gsap (queue_run [SetRobotArm, StartSequence,
      EnqueueFrame (demoFrame 1 0 None), AnimationFrame, StartSequence,
      EnqueueFrame (demoFrame 2 0 None), EnqueueFrame (demoFrame 3 100 None),
      EnqueueFrame (demoFrame 4 200 None), EnqueueFrame (demoFrame 5 300 None),
      EnqueueFrame (demoFrame 6 400 None), AnimationFrame, AnimationFrame, AnimationFrame,
      AnimationFrame, AnimationFrame] (newQueue demoArm))) = [6] \<and>
   lastProcessedFrame (queue_run [SetRobotArm, StartSequence,
      EnqueueFrame (demoFrame 1 0 None), AnimationFrame, StartSequence,
      EnqueueFrame (demoFrame 2 0 None), EnqueueFrame (demoFrame 3 100 None),
      EnqueueFrame (demoFrame 4 200 None), EnqueueFrame (demoFrame 5 300 None),
      EnqueueFrame (demoFrame 6 400 None), AnimationFrame, AnimationFrame, AnimationFrame,
      AnimationFrame, AnimationFrame] (newQueue demoArm)) = None"
  by (simp add: queue_run_def newQueue_def setRobotArm_def startSequence_def
      startAnimationLoop_def enqueueFrame_def loop_def processQueue_def executeFrame_def Let_def
      animateMultipleJoints_def killArmTimeline_def gsapKill_def gripperOpennessOf_def
      io_digital_output_0_def calculateFrameDuration_def demoFrame_def demoArm_def)

text \<open>
  C9. \<^verbatim>\<open>stop()\<close> is idempotent: a second call changes nothing; on an idle queue it changes
  nothing at all; on any other queue, so also on a stopped one, it leaves the queue
  stopped with an empty buffer, the processing flag down and the loop halted.
\<close>

theorem stop_idempotent:
  "stop (stop s) = stop s \<and>
   (status s = Idle \<longrightarrow> stop s = s) \<and>
   (status s \<noteq> Idle \<longrightarrow>
      status (stop s) = Stopped \<and> frameQueue (stop s) = [] \<and> \<not> isProcessing (stop s) \<and>
      animationLoopId (stop s) = None) \<and>
   (queue_inv s \<and> status s \<noteq> Idle \<longrightarrow> gsap (stop s) = [])"
proof -
  have b: "status s = Idle \<longrightarrow> stop s = s" by (simp add: stop_def)
  have c: "status s \<noteq> Idle \<longrightarrow>
      status (stop s) = Stopped \<and> frameQueue (stop s) = [] \<and> \<not> isProcessing (stop s) \<and>
      animationLoopId (stop s) = None"
    by (simp add: stop_not_idle stopArm_isProcessing)
  have d: "queue_inv s \<and> status s \<noteq> Idle \<longrightarrow> gsap (stop s) = []"
  proof
    assume a: "queue_inv s \<and> status s \<noteq> Idle"
    show "gsap (stop s) = []"
    proof (cases "robotArm s")
      case True
      have "gsap (killArmTimeline (s\<lparr>status := Stopped, isProcessing := False\<rparr>)) = []"
        by (rule killArmTimeline_clears) (simp add: flags_inv a)
      then have "gsap (stopArm (s\<lparr>status := Stopped, isProcessing := False\<rparr>)) = []"
        by (simp add: stopArm_def stopAllJointAnimations_def stopAnimation_def)
      then show ?thesis using a True by (simp add: stop_not_idle)
    next
      case False
      then have "gsap s = []" using a by (auto simp: queue_inv_def)
      then show ?thesis using a False by (simp add: stop_not_idle)
    qed
  qed
  show ?thesis by (rule conjI[OF stop_stop conjI[OF b conjI[OF c d]]])
qed

theorem stop_idempotent_witness:
  "status (newQueue demoArm) = Idle \<and> stop (newQueue demoArm) = newQueue demoArm \<and>
   queue_inv (stop (playingQueue None [demoFrame 1 0 None])) \<and>
   status (stop (playingQueue None [demoFrame 1 0 None])) \<noteq> Idle \<and>
   stop (stop (playingQueue None [demoFrame 1 0 None])) = stop (playingQueue None [demoFrame 1 0 None]) \<and>
   status (stop (stop (playingQueue None [demoFrame 1 0 None]))) = Stopped \<and>
   frameQueue (stop (stop (playingQueue None [demoFrame 1 0 None]))) = [] \<and>
   \<not> isProcessing (stop (stop (playingQueue None [demoFrame 1 0 None]))) \<and>
   gsap (stop (stop (playingQueue None [demoFrame 1 0 None]))) = []"
proof -
  have i: "status (newQueue demoArm) = Idle" by (simp add: newQueue_def)
  have q: "queue_inv (playingQueue None [demoFrame 1 0 None])"
    by (simp add: queue_inv_def playingQueue_def newQueue_def)
  have n: "status (playingQueue None [demoFrame 1 0 None]) \<noteq> Idle"
    by (simp add: playingQueue_def newQueue_def)
  have s1: "status (stop (playingQueue None [demoFrame 1 0 None])) \<noteq> Idle"
    using n stop_idempotent [of "playingQueue None [demoFrame 1 0 None]"] by simp
  have q1: "queue_inv (stop (playingQueue None [demoFrame 1 0 None]))"
    using q by (rule stop_inv)
  show ?thesis
    using i s1 q1 stop_idempotent [of "newQueue demoArm"]
      stop_idempotent [of "stop (playingQueue None [demoFrame 1 0 None])"]
      stop_idempotent [of "playingQueue None [demoFrame 1 0 None]"]
    by simp
qed

text \<open>
  C10. When the queue (with its arm) executes a frame, the joint transition for the frame
  is started, and with it the gripper is sent to openness 0 if the frame's
  \<^verbatim>\<open>io.digital_output_0\<close> is true and to openness 1 if it is false; if the field is absent
  the gripper's timeline is left as it was.
\<close>

theorem gripper_target:
  "robotArm s \<longrightarrow>
     tr_frame (snd (last (gsap (executeFrame frame nextFrame s)))) = frame \<and>
     (io_digital_output_0 frame = Some True \<longrightarrow>
        gripperAnimationTimeline (arm (executeFrame frame nextFrame s)) =
          Some \<lparr>gt_openness = 0, gt_duration = 5 / 10\<rparr>) \<and>
     (io_digital_output_0 frame = Some False \<longrightarrow>
        gripperAnimationTimeline (arm (executeFrame frame nextFrame s)) =
          Some \<lparr>gt_openness = 1, gt_duration = 5 / 10\<rparr>) \<and>
     (io_digital_output_0 frame = None \<longrightarrow>
        gripperAnimationTimeline (arm (executeFrame frame nextFrame s)) =
          gripperAnimationTimeline (arm s))"
  by (cases "timeline (arm s)"; cases "map_of (gsap s) (the (timeline (arm s)))";
      cases "io_digital_output_0 frame")
     (simp_all add: executeFrame_def animateMultipleJoints_def Let_def gripperOpennessOf_def
      killArmTimeline_def gsapKill_def animateGripperOpenness_def)

theorem gripper_target_witness:
  "robotArm (playingQueue None []) \<and>
   gripperAnimationTimeline (arm (executeFrame
       (demoFrame 1 0 (Some \<lparr>digital_output_0 = Some True\<rparr>)) None (playingQueue None []))) =
     Some \<lparr>gt_openness = 0, gt_duration = 5 / 10\<rparr> \<and>
   gripperAnimationTimeline (arm (executeFrame
       (demoFrame 2 0 (Some \<lparr>digital_output_0 = Some False\<rparr>)) None (playingQueue None []))) =
     Some \<lparr>gt_openness = 1, gt_duration = 5 / 10\<rparr> \<and>
   gripperAnimationTimeline (arm (executeFrame
       (demoFrame 3 0 (Some \<lparr>digital_output_0 = None\<rparr>)) None (playingQueue None []))) = None \<and>
   gripperAnimationTimeline (arm (executeFrame
       (demoFrame 4 0 None) None (playingQueue None []))) = None"
proof -
  have r: "robotArm (playingQueue None [])"
    and g: "gripperAnimationTimeline (arm (playingQueue None [])) = None"
    by (simp_all add: playingQueue_def newQueue_def demoArm_def)
  have t: "io_digital_output_0 (demoFrame 1 0 (Some \<lparr>digital_output_0 = Some True\<rparr>)) = Some True"
    and f: "io_digital_output_0 (demoFrame 2 0 (Some \<lparr>digital_output_0 = Some False\<rparr>)) = Some False"
    and n: "io_digital_output_0 (demoFrame 3 0 (Some \<lparr>digital_output_0 = None\<rparr>)) = None"
    and m: "io_digital_output_0 (demoFrame 4 0 None) = None"
    by (simp_all add: io_digital_output_0_def demoFrame_def)
  show ?thesis
    using r g t f n m
      gripper_target [of "playingQueue None []" "demoFrame 1 0 (Some \<lparr>digital_output_0 = Some True\<rparr>)" None]
      gripper_target [of "playingQueue None []" "demoFrame 2 0 (Some \<lparr>digital_output_0 = Some False\<rparr>)" None]
      gripper_target [of "playingQueue None []" "demoFrame 3 0 (Some \<lparr>digital_output_0 = None\<rparr>)" None]
      gripper_target [of "playingQueue None []" "demoFrame 4 0 None" None]
    by simp
qed

section \<open>Properties of the Transport Client\<close>

lemma allClosed_nth: "allClosed socks \<Longrightarrow> h < length socks \<Longrightarrow> socks ! h = CLOSED"
  by (simp add: allClosed_def list_all_length)

lemma oneLive_nth:
  assumes "oneLive socks" "h < length socks" "socks ! h \<noteq> CLOSED"
  shows "h = length socks - 1"
proof (rule ccontr)
  assume n: "h \<noteq> length socks - 1"
  then have l: "h < length (butlast socks)" using assms(2) by simp
  then have "butlast socks ! h = CLOSED"
    using assms(1) by (simp add: oneLive_def allClosed_nth)
  then show False using l assms(3) by (simp add: nth_butlast)
qed

lemma oneLive_close:
  assumes "oneLive socks"
  shows "allClosed (socks[length socks - 1 := CLOSED])"
proof -
  from assms have ne: "socks \<noteq> []" and b: "allClosed (butlast socks)"
    by (simp_all add: oneLive_def)
  have "(butlast socks @ [last socks])[length (butlast socks) := CLOSED] = butlast socks @ [CLOSED]"
    by (rule list_update_length)
  then have "socks[length socks - 1 := CLOSED] = butlast socks @ [CLOSED]"
    using ne by simp
  then show ?thesis using b by (simp add: allClosed_def)
qed

lemma oneLive_not_allClosed:
  assumes a: "oneLive socks" and b: "allClosed socks"
  shows False
proof -
  from a have "last socks \<in> set socks" by (simp add: oneLive_def)
  then have "last socks = CLOSED" using b by (simp add: allClosed_def list_all_iff)
  then show False using a by (simp add: oneLive_def)
qed

lemma allClosed_connecting: "allClosed socks \<Longrightarrow> oneLive (socks @ [CONNECTING])"
  by (simp add: oneLive_def)

lemma failedCount_emit:
  "failedCount (emit e s) = failedCount s + (if e = ''reconnect_failed'' then 1 else 0)"
  by (simp add: failedCount_def emit_def)

lemma stopHeartbeat_eq: "stopHeartbeat s = s\<lparr>heartbeatInterval := None\<rparr>"
  by (cases "heartbeatInterval s") (simp_all add: stopHeartbeat_def)

lemma connect_allClosed:
  assumes "allClosed (sockets s)"
  shows "sockets (connect s) = sockets s @ [CONNECTING] \<and>
         reconnectAttempts (connect s) = reconnectAttempts s \<and>
         isManualDisconnect (connect s) = isManualDisconnect s \<and>
         reconnectTimers (connect s) = reconnectTimers s \<and>
         timerConnects (connect s) = timerConnects s \<and>
         emitted (connect s) = emitted s"
proof (cases "ws s")
  case None
  then show ?thesis by (simp add: connect_def)
next
  case (Some h)
  have "h < length (sockets s) \<longrightarrow> sockets s ! h = CLOSED"
    using assms by (simp add: allClosed_nth)
  then have "\<not> (h < length (sockets s) \<and> (sockets s ! h = OPEN \<or> sockets s ! h = CONNECTING))"
    by auto
  then show ?thesis using Some
    by (auto simp: connect_def cleanupConnection_def Let_def stopHeartbeat_eq)
qed

lemma onclose_fields:
  "sockets (onclose s) = sockets s"
  "isManualDisconnect (onclose s) = isManualDisconnect s"
  "timerConnects (onclose s) = timerConnects s"
  by (simp_all add: onclose_def Let_def stopHeartbeat_eq emit_def attemptReconnect_def)

lemma onclose_retry:
  assumes "\<not> isManualDisconnect s" "reconnectAttempts s < 3"
  shows "reconnectTimers (onclose s) = reconnectTimers s + 1"
    and "reconnectAttempts (onclose s) = reconnectAttempts s + 1"
    and "emitted (onclose s) = emitted s @ [''disconnected'']"
    and "isReconnecting (onclose s)"
  using assms
  by (simp_all add: onclose_def Let_def stopHeartbeat_eq emit_def attemptReconnect_def
      maxReconnectAttempts_def)

lemma onclose_exhausted:
  assumes "reconnectAttempts s \<ge> 3"
  shows "reconnectTimers (onclose s) = reconnectTimers s"
    and "reconnectAttempts (onclose s) = reconnectAttempts s"
    and "emitted (onclose s) = emitted s @ [''disconnected'', ''reconnect_failed'']"
  using assms
  by (simp_all add: onclose_def Let_def stopHeartbeat_eq emit_def attemptReconnect_def
      maxReconnectAttempts_def)

lemma failing_step_close:
  assumes p: "failing_phase n0 f0 s"
  shows "failing_phase n0 f0 (client_step (SocketClose h) s)"
proof (cases "h < length (sockets s) \<and> sockets s ! h \<noteq> CLOSED")
  case False
  then show ?thesis using p by auto
next
  case True
  then have live: "oneLive (sockets s)" and t0: "reconnectTimers s = 0"
    and m: "\<not> isManualDisconnect s"
    and tc: "timerConnects s = n0 + reconnectAttempts s" and le: "reconnectAttempts s \<le> 3"
    and fc: "failedCount s = f0"
    using p by (auto simp: failing_phase_def allClosed_nth)
  have h: "h = length (sockets s) - 1" using oneLive_nth[OF live] True by blast
  let ?s1 = "s\<lparr>sockets := (sockets s)[h := CLOSED]\<rparr>"
  have cl: "allClosed (sockets ?s1)" using oneLive_close[OF live] h by simp
  have st: "client_step (SocketClose h) s = onclose ?s1" using True by simp
  show ?thesis
  proof (cases "reconnectAttempts s < 3")
    case lt: True
    have "reconnectTimers (onclose ?s1) = 1"
      and "reconnectAttempts (onclose ?s1) = reconnectAttempts s + 1"
      and "failedCount (onclose ?s1) = f0"
      using onclose_retry[of ?s1] m lt t0 fc by (simp_all add: failedCount_def)
    then show ?thesis
      unfolding st failing_phase_def using cl m tc lt by (simp add: onclose_fields)
  next
    case ge: False
    then have e3: "reconnectAttempts s = 3" using le by simp
    have "reconnectTimers (onclose ?s1) = 0"
      and "reconnectAttempts (onclose ?s1) = 3"
      and "failedCount (onclose ?s1) = f0 + 1"
      using onclose_exhausted[of ?s1] e3 t0 fc by (simp_all add: failedCount_def)
    then show ?thesis
      unfolding st failing_phase_def using cl m tc e3 by (simp add: onclose_fields)
  qed
qed

lemma failing_step_error:
  assumes p: "failing_phase n0 f0 s"
  shows "failing_phase n0 f0 (client_step (SocketError h) s)"
  using p by (simp add: failing_phase_def onerror_def emit_def failedCount_def)

lemma failing_step_timer:
  assumes p: "failing_phase n0 f0 s"
  shows "failing_phase n0 f0 (client_step ReconnectTimer s)"
proof (cases "reconnectTimers s = 0")
  case True
  then show ?thesis using p by simp
next
  case False
  then have t1: "reconnectTimers s = 1" and cl: "allClosed (sockets s)"
    and m: "\<not> isManualDisconnect s"
    and tc: "timerConnects s + 1 = n0 + reconnectAttempts s" and le: "reconnectAttempts s \<le> 3"
    and fc: "failedCount s = f0"
    using p by (auto simp: failing_phase_def)
  let ?s1 = "s\<lparr>reconnectTimers := reconnectTimers s - 1, timerConnects := timerConnects s + 1\<rparr>"
  have st: "client_step ReconnectTimer s = connect ?s1" using False by simp
  have cl1: "allClosed (sockets ?s1)" using cl by simp
  show ?thesis
    unfolding st failing_phase_def
    using connect_allClosed[OF cl1] allClosed_connecting[OF cl] t1 m tc le fc
    by (simp add: failedCount_def)
qed

lemma failing_step:
  assumes "failing_phase n0 f0 s" "failing_event e"
  shows "failing_phase n0 f0 (client_step e s)"
  using assms
  by (cases e) (simp_all add: failing_step_close failing_step_error failing_step_timer
      del: client_step.simps)

lemma failing_run:
  assumes "failing_phase n0 f0 s" "\<forall>e\<in>set es. failing_event e"
  shows "failing_phase n0 f0 (client_run es s)"
  using assms unfolding client_run_def
  by (induction es arbitrary: s) (simp_all add: failing_step del: client_step.simps)

lemma linked_phase: "linked c \<Longrightarrow> failing_phase (timerConnects c) (failedCount c) c"
  by (simp add: linked_def failing_phase_def)

lemma failing_phase_bounds:
  assumes "failing_phase n0 f0 s"
  shows "timerConnects s \<le> n0 + 3" and "failedCount s \<le> f0 + 1" and "reconnectTimers s \<le> 1"
    and "timerConnects s = n0 + 3 \<and> allClosed (sockets s) \<longrightarrow>
           failedCount s = f0 + 1 \<and> reconnectTimers s = 0"
  using assms oneLive_not_allClosed[of "sockets s"] by (auto simp: failing_phase_def)

lemma connect_reconnectAttempts: "reconnectAttempts (connect s) = reconnectAttempts s"
  by (cases "ws s") (auto simp: connect_def cleanupConnection_def Let_def stopHeartbeat_eq)

subsection \<open>Claims about the client\<close>

text \<open>
  C5. Take a client with one connection attempt under way or one open connection, its
  attempt count at zero, and let every attempt fail with nobody intervening (sockets only
  fail and close, reconnection timers only run). Then at most three automatic
  reconnection attempts are ever made, \<^verbatim>\<open>reconnect_failed\<close> is emitted at most once, and once
  three automatic attempts have been made and have all failed it has been emitted exactly
  once and no reconnection timer is pending. A manual \<^verbatim>\<open>reconnect()\<close> sets the attempt count
  to zero and then connects.
\<close>

theorem reconnect_attempts_bounded:
  "(linked c \<and> (\<forall>e\<in>set es. failing_event e) \<longrightarrow>
      timerConnects (client_run es c) \<le> timerConnects c + 3 \<and>
      failedCount (client_run es c) \<le> failedCount c + 1 \<and>
      (timerConnects (client_run es c) = timerConnects c + 3 \<and>
       allClosed (sockets (client_run es c)) \<longrightarrow>
         failedCount (client_run es c) = failedCount c + 1 \<and>
         reconnectTimers (client_run es c) = 0)) \<and>
   reconnectAttempts (resetReconnectState s) = 0 \<and>
   reconnect s = connect (resetReconnectState s) \<and>
   reconnectAttempts (reconnect s) = 0"
proof -
  have a: "linked c \<and> (\<forall>e\<in>set es. failing_event e) \<longrightarrow>
      timerConnects (client_run es c) \<le> timerConnects c + 3 \<and>
      failedCount (client_run es c) \<le> failedCount c + 1 \<and>
      (timerConnects (client_run es c) = timerConnects c + 3 \<and>
       allClosed (sockets (client_run es c)) \<longrightarrow>
         failedCount (client_run es c) = failedCount c + 1 \<and>
         reconnectTimers (client_run es c) = 0)"
  proof
    assume h: "linked c \<and> (\<forall>e\<in>set es. failing_event e)"
    then have "failing_phase (timerConnects c) (failedCount c) (client_run es c)"
      by (intro failing_run linked_phase) simp_all
    from failing_phase_bounds(1,2,4)[OF this]
    show "timerConnects (client_run es c) \<le> timerConnects c + 3 \<and>
      failedCount (client_run es c) \<le> failedCount c + 1 \<and>
      (timerConnects (client_run es c) = timerConnects c + 3 \<and>
       allClosed (sockets (client_run es c)) \<longrightarrow>
         failedCount (client_run es c) = failedCount c + 1 \<and>
         reconnectTimers (client_run es c) = 0)"
      by (intro conjI)
  qed
  have b: "reconnectAttempts (resetReconnectState s) = 0"
    by (simp add: resetReconnectState_def)
  have c: "reconnect s = connect (resetReconnectState s)"
    by (simp add: reconnect_def)
  have d: "reconnectAttempts (reconnect s) = 0"
    by (simp add: reconnect_def connect_reconnectAttempts resetReconnectState_def)
  show ?thesis by (rule conjI[OF a conjI[OF b conjI[OF c d]]])
qed

theorem reconnect_attempts_bounded_witness:
  "linked (connect newClient) \<and>
   list_all failing_event [SocketError 0, SocketClose 0, ReconnectTimer, SocketError 1,
      SocketClose 1, ReconnectTimer, SocketClose 2, ReconnectTimer, SocketClose 3,
      ReconnectTimer, SocketClose 3] \<and>
   timerConnects (client_run [SocketError 0, SocketClose 0, ReconnectTimer, SocketError 1,
      SocketClose 1, ReconnectTimer, SocketClose 2, ReconnectTimer, SocketClose 3,
      ReconnectTimer, SocketClose 3] (connect newClient)) = 3 \<and>
   failedCount (client_run [SocketError 0, SocketClose 0, ReconnectTimer, SocketError 1,
      SocketClose 1, ReconnectTimer, SocketClose 2, ReconnectTimer, SocketClose 3,
      ReconnectTimer, SocketClose 3] (connect newClient)) = 1 \<and>
   reconnectTimers (client_run [SocketError 0, SocketClose 0, ReconnectTimer, SocketError 1,
      SocketClose 1, ReconnectTimer, SocketClose 2, ReconnectTimer, SocketClose 3,
      ReconnectTimer, SocketClose 3] (connect newClient)) = 0"
proof -
  let ?es = "[SocketError 0, SocketClose 0, ReconnectTimer, SocketError 1, SocketClose 1,
              ReconnectTimer, SocketClose 2, ReconnectTimer, SocketClose 3, ReconnectTimer,
              SocketClose 3]"
  have l: "linked (connect newClient)"
    by (simp add: linked_def connect_def newClient_def oneLive_def allClosed_def)
  have f: "\<forall>e\<in>set ?es. failing_event e" by simp
  have z: "timerConnects (connect newClient) = 0" "failedCount (connect newClient) = 0"
    by (simp_all add: connect_def newClient_def failedCount_def)
  have r: "timerConnects (client_run ?es (connect newClient)) = 3 \<and>
           allClosed (sockets (client_run ?es (connect newClient)))"
    by (simp add: client_run_def connect_def newClient_def onclose_def onerror_def emit_def
        attemptReconnect_def cleanupConnection_def stopHeartbeat_def maxReconnectAttempts_def
        allClosed_def Let_def)
  show ?thesis
    using l f z r reconnect_attempts_bounded [of "connect newClient" ?es newClient]
    by simp
qed

text \<open>
  C6, at its failing input. A new client connects and the attempt fails, so that a
  reconnection is in flight (the flag is set, one timer pending); \<^verbatim>\<open>connect()\<close> is called
  again and that attempt fails too: the close handler clears the flag before it calls
  \<^verbatim>\<open>attemptReconnect\<close>, whose guard therefore lets a second timer be set.
\<close>

theorem close_spawns_second_reconnect:
  "isReconnecting (client_run [Connect, SocketClose 0, Connect] newClient) \<and>
   reconnectTimers (client_run [Connect, SocketClose 0, Connect] newClient) = 1 \<and>
   reconnectTimers (client_run [Connect, SocketClose 0, Connect, SocketClose 1] newClient) = 2"
  by (simp add: client_run_def connect_def newClient_def onclose_def emit_def
      attemptReconnect_def cleanupConnection_def stopHeartbeat_def maxReconnectAttempts_def
      Let_def)

text \<open>
  Left to itself (every attempt failing, no call from outside) the client never has more
  than one reconnection timer pending.
\<close>

lemma failing_run_one_timer:
  assumes "linked c" "\<forall>e\<in>set es. failing_event e"
  shows "reconnectTimers (client_run es c) \<le> 1"
  using failing_phase_bounds(3)[OF failing_run[OF linked_phase[OF assms(1)] assms(2)]] .

section \<open>Properties of the Relay Hub\<close>

subsection \<open>Clearing and setting timers\<close>

lemma fold_clearTimeout:
  "fold clearTimeout ts h = h\<lparr>pending := filter (\<lambda>x. t_handle x \<notin> set ts) (pending h)\<rparr>"
proof (induction ts arbitrary: h)
  case Nil
  then show ?case by simp
next
  case (Cons t ts)
  have "fold clearTimeout (t # ts) h = fold clearTimeout ts (clearTimeout t h)"
    by simp
  also have "\<dots> = (clearTimeout t h)\<lparr>pending :=
                 filter (\<lambda>x. t_handle x \<notin> set ts) (pending (clearTimeout t h))\<rparr>"
    by (rule Cons.IH)
  also have "\<dots> = h\<lparr>pending := filter (\<lambda>x. t_handle x \<notin> set (t # ts)) (pending h)\<rparr>"
    by (simp add: clearTimeout_def)
  finally show ?case .
qed

lemma clearClientSequenceTimers_eq:
  "clearClientSequenceTimers c h =
     h\<lparr>pending := filter (\<lambda>x. t_handle x \<notin> set (oldTimers h c)) (pending h),
       sequenceTimers := (sequenceTimers h)(c := None)\<rparr>"
  by (cases "sequenceTimers h c")
     (simp_all add: clearClientSequenceTimers_def oldTimers_def fold_clearTimeout)



subsection \<open>What the handlers leave alone\<close>

lemma wsSend_fields [simp]:
  "pending (wsSend c m h) = pending h"
  "sequenceTimers (wsSend c m h) = sequenceTimers h"
  "clients (wsSend c m h) = clients h"
  "wsState (wsSend c m h) = wsState h"
  "now (wsSend c m h) = now h"
  "nextTimer (wsSend c m h) = nextTimer h"
  "sequenceFile (wsSend c m h) = sequenceFile h"
  "clientIdCounter (wsSend c m h) = clientIdCounter h"
  by (simp_all add: wsSend_def)

lemma wsSend_outbox:
  "outbox (wsSend c m h) c' =
     (if c' = c \<and> wsState h c = OPEN then outbox h c @ [m] else outbox h c')"
  by (simp add: wsSend_def)

lemma sendError_eq:
  "sendError c code h = wsSend c (MError code (now h)) h"
  by (simp add: sendError_def wsSend_def)

lemma frameTimers_wsSend [simp]:
  "frameTimers (wsSend c m h) = frameTimers h"
  "completeTimer (wsSend c m h) = completeTimer h"
  "oldTimers (wsSend c m h) = oldTimers h"
  by (simp_all add: frameTimers_def completeTimer_def oldTimers_def fun_eq_iff)

subsection \<open>Timers listed under their client\<close>

lemma tracked_clear:
  assumes "tracked h"
  shows "tracked (clearClientSequenceTimers c h)"
    and "noTimersFor c (clearClientSequenceTimers c h)"
proof -
  have k: "\<And>t. t \<in> set (pending h) \<Longrightarrow> t_handle t \<notin> set (oldTimers h c) \<Longrightarrow>
             timer_owner (t_action t) \<noteq> c \<and>
             t_handle t \<in> set (oldTimers h (timer_owner (t_action t)))"
    using assms by (auto simp: tracked_def list_all_iff)
  show "noTimersFor c (clearClientSequenceTimers c h)"
    using k by (auto simp: noTimersFor_def list_all_iff clearClientSequenceTimers_eq)
  show "tracked (clearClientSequenceTimers c h)"
    using k by (auto simp: tracked_def list_all_iff clearClientSequenceTimers_eq oldTimers_def)
qed

lemma handleStopSequenceRequest_eq:
  "clients h c = Some client \<Longrightarrow>
   handleStopSequenceRequest c h =
     wsSend c (MSequenceStopped (now h)) (clearClientSequenceTimers c h)"
  by (simp add: handleStopSequenceRequest_def Let_def wsSend_def clearClientSequenceTimers_eq)


text \<open>
  While every pending timer is listed under its client, a stop request leaves none that
  sends to the client.
\<close>

lemma stop_clears_when_tracked:
  assumes "tracked h" "clients h c \<noteq> None"
  shows "noTimersFor c (handleMessage_hub c StopSequenceRequest h)"
proof -
  obtain client where cl: "clients h c = Some client" using assms(2) by auto
  have "noTimersFor c (clearClientSequenceTimers c h)" by (rule tracked_clear(2)[OF assms(1)])
  then show ?thesis using cl
    by (simp add: handleStopSequenceRequest_eq noTimersFor_def)
qed

subsection \<open>Claims about the hub\<close>










text \<open>
  C4, at its failing input. The sequence file has a frame at 1000 ms followed by \<^verbatim>\<open>null\<close>.
  Client 1 asks for the sequence: the timer for the first frame is set, the \<^verbatim>\<open>null\<close> makes
  \<^verbatim>\<open>pushSequenceFrames\<close> throw before it stores the handles, and the client is told
  \<^verbatim>\<open>SEQUENCE_ERROR\<close>, with the timer pending and listed nowhere. The client's stop request
  at 120 ms cancels nothing, and at 1000 ms the frame is sent, after \<^verbatim>\<open>sequence_stopped\<close>.
  The same stray timer outlives a stop of a later, well-formed sequence (frames at 0, 100,
  250, 500, stop at 120 ms), whose own timers are cancelled.
\<close>

theorem stop_misses_unlisted_timer:
  "outbox (hub_run [Connection, Message 1 TestSequenceRequest] (newHub leakFile)) 1 =
     [MConnection 1 0, MSequenceStart JNull, MError ''SEQUENCE_ERROR'' 0] \<and>
   pending (hub_run [Connection, Message 1 TestSequenceRequest] (newHub leakFile)) =
     [\<lparr>t_handle = 0, t_due = 1000, t_action = SendFrame 1 (Frame (demoFrame 1 1000 None))\<rparr>] \<and>
   sequenceTimers (hub_run [Connection, Message 1 TestSequenceRequest] (newHub leakFile)) 1 = None \<and>
   pending (hub_run [Connection, Message 1 TestSequenceRequest, Advance 120,
                     Message 1 StopSequenceRequest] (newHub leakFile)) =
     [\<lparr>t_handle = 0, t_due = 1000, t_action = SendFrame 1 (Frame (demoFrame 1 1000 None))\<rparr>] \<and>
   outbox (hub_run [Connection, Message 1 TestSequenceRequest, Advance 120,
                    Message 1 StopSequenceRequest, Advance 1000] (newHub leakFile)) 1 =
     [MConnection 1 0, MSequenceStart JNull, MError ''SEQUENCE_ERROR'' 0, MSequenceStopped 120,
      MSequenceFrame (Frame (demoFrame 1 1000 None))] \<and>
   outbox (hub_run [Connection, Message 1 TestSequenceRequest, FileChanged demoFile,
                    Message 1 TestSequenceRequest, Advance 120, Message 1 StopSequenceRequest,
                    Advance 1000] (newHub leakFile)) 1 =
     [MConnection 1 0, MSequenceStart JNull, MError ''SEQUENCE_ERROR'' 0, MSequenceStart JNull,
      MSequenceFrame (Frame (demoFrame 1 0 None)), MSequenceFrame (Frame (demoFrame 2 100 None)),
      MSequenceStopped 120, MSequenceFrame (Frame (demoFrame 1 1000 None))]"
  by (simp add: hub_run_def newHub_def leakFile_def demoFile_def onConnection_def Let_def
      handleTestSequenceRequest_def handleStopSequenceRequest_def pushSequenceFrames_def
      clearClientSequenceTimers_def clearTimeout_def setTimeout_def advance_def wsSend_def
      sendError_def demoFrame_def TIMEOUT_MAX_def isConnected_hub_def)

lemma fold_update_absent:
  "map_of data key = None \<Longrightarrow>
   map_of (fold (\<lambda>(k, v). AList.update k v) data acc) key = map_of acc key"
proof (induction data arbitrary: acc)
  case Nil
  then show ?case by simp
next
  case (Cons p rest)
  obtain k v where p: "p = (k, v)" by (cases p)
  from Cons.prems p have k: "k \<noteq> key" and r: "map_of rest key = None"
    by (auto split: if_splits)
  have "map_of (fold (\<lambda>(k, v). AList.update k v) rest (AList.update k v acc)) key =
        map_of (AList.update k v acc) key"
    by (rule Cons.IH[OF r])
  then show ?case using k p by (simp add: update_conv')
qed

lemma update_fresh: "k \<notin> fst ` set al \<Longrightarrow> AList.update k v al = al @ [(k, v)]"
  by (induction al) auto

lemma fold_update_distinct:
  "distinct (map fst data) \<Longrightarrow> fst ` set data \<inter> fst ` set acc = {} \<Longrightarrow>
   fold (\<lambda>(k, v). AList.update k v) data acc = acc @ data"
proof (induction data arbitrary: acc)
  case Nil
  then show ?case by simp
next
  case (Cons p rest)
  obtain k v where p: "p = (k, v)" by (cases p)
  have f: "k \<notin> fst ` set acc" using Cons.prems(2) p by auto
  have d: "distinct (map fst rest)" and n: "k \<notin> fst ` set rest"
    using Cons.prems(1) p by auto
  have "fst ` set rest \<inter> fst ` set (acc @ [(k, v)]) = {}"
    using Cons.prems(2) n by auto
  from Cons.IH[OF d this] show ?case using p f by (simp add: update_fresh)
qed

text \<open>
  C1, as the code has it. A \<^verbatim>\<open>robot_state\<close> message from a client of the roster whose
  payload has no \<^verbatim>\<open>sourceClientId\<close> of its own is sent as \<^verbatim>\<open>robot_state_update\<close>, tagged with
  the sender's id, to every client of the roster with an open socket, the sender
  included, and to nobody else.
\<close>

theorem robot_state_broadcast:
  assumes "clients h a \<noteq> None" and "wsState h a \<noteq> CLOSED"
    and "map_of data ''sourceClientId'' = None"
  shows "outbox (hub_step (Message a (RobotState data)) h) c =
           outbox h c @ (if clients h c \<noteq> None \<and> wsState h c = OPEN
                         then [MRobotStateUpdate (tagSource a data)] else []) \<and>
         (wsState h a = OPEN \<longrightarrow>
            outbox (hub_step (Message a (RobotState data)) h) a =
              outbox h a @ [MRobotStateUpdate (tagSource a data)]) \<and>
         map_of (tagSource a data) ''sourceClientId'' = Some (JNum (real a)) \<and>
         (distinct (map fst data) \<longrightarrow>
            tagSource a data = (''sourceClientId'', JNum (real a)) # data)"
proof -
  obtain client where cl: "clients h a = Some client" using assms(1) by auto
  have s: "hub_step (Message a (RobotState data)) h =
           broadcast (MRobotStateUpdate (tagSource a data)) None h"
    using cl assms(2) by (simp add: handleRobotState_def)
  have o: "outbox (hub_step (Message a (RobotState data)) h) c =
           outbox h c @ (if clients h c \<noteq> None \<and> wsState h c = OPEN
                         then [MRobotStateUpdate (tagSource a data)] else [])"
    unfolding s by (simp add: broadcast_def)
  have oa: "wsState h a = OPEN \<longrightarrow>
            outbox (hub_step (Message a (RobotState data)) h) a =
              outbox h a @ [MRobotStateUpdate (tagSource a data)]"
    unfolding s using cl by (simp add: broadcast_def)
  have t: "map_of (tagSource a data) ''sourceClientId'' = Some (JNum (real a))"
    unfolding tagSource_def using fold_update_absent[OF assms(3)] by simp
  have d: "distinct (map fst data) \<longrightarrow>
            tagSource a data = (''sourceClientId'', JNum (real a)) # data"
  proof
    assume dd: "distinct (map fst data)"
    have "''sourceClientId'' \<notin> fst ` set data"
      using assms(3) by (simp add: map_of_eq_None_iff)
    then have "fst ` set data \<inter> fst ` set [(''sourceClientId'', JNum (real a))] = {}"
      by auto
    from fold_update_distinct[OF dd this]
    show "tagSource a data = (''sourceClientId'', JNum (real a)) # data"
      by (simp add: tagSource_def)
  qed
  show ?thesis by (rule conjI[OF o conjI[OF oa conjI[OF t d]]])
qed

theorem robot_state_broadcast_witness:
  "outbox (hub_step (Message 1 (RobotState [(''timestamp'', JNum 7)]))
            (hub_run [Connection, Connection] (newHub Unreadable))) 2 =
     [MConnection 2 0, MRobotStateUpdate [(''sourceClientId'', JNum 1), (''timestamp'', JNum 7)]] \<and>
   outbox (hub_step (Message 1 (RobotState [(''timestamp'', JNum 7)]))
            (hub_run [Connection, Connection] (newHub Unreadable))) 3 = []"
proof -
  let ?h = "hub_run [Connection, Connection] (newHub Unreadable)"
  have c: "clients ?h 1 \<noteq> None" and w: "wsState ?h 1 \<noteq> CLOSED"
    and c2: "clients ?h 2 \<noteq> None" and w2: "wsState ?h 2 = OPEN"
    and c3: "clients ?h 3 = None"
    and o2: "outbox ?h 2 = [MConnection 2 0]" and o3: "outbox ?h 3 = []"
    by (simp_all add: hub_run_def newHub_def onConnection_def Let_def wsSend_def)
  have m: "map_of [(''timestamp'', JNum 7)] ''sourceClientId'' = None"
    and d: "distinct (map fst [(''timestamp'', JNum 7)])" by simp_all
  show ?thesis
    using robot_state_broadcast [OF c w m, of 2] robot_state_broadcast [OF c w m, of 3]
      c2 w2 c3 o2 o3 d
    by simp
qed

text \<open>
  C1 as stated fails: with two clients connected, the \<^verbatim>\<open>robot_state\<close> of client 1 comes
  back to client 1.
\<close>

theorem robot_state_echoed_to_sender:
  "outbox (hub_run [Connection, Connection, Message 1 (RobotState [(''timestamp'', JNum 7)])]
             (newHub Unreadable)) 1 =
     [MConnection 1 0, MRobotStateUpdate [(''sourceClientId'', JNum 1), (''timestamp'', JNum 7)]]"
  by (simp add: hub_run_def newHub_def onConnection_def Let_def wsSend_def
      handleRobotState_def broadcast_def tagSource_def)

text \<open>
  C8, at its failing inputs. Client 1 has the four frames of \<open>demoFile\<close> scheduled when the
  file changes and the client asks again. (1) The only frame has one joint angle for an
  arm of three joints: the hub answers \<^verbatim>\<open>sequence_start\<close>, not an error, drops the five
  timers it had and sets two new ones; the queue, given that frame, starts a transition
  and stays in play. (2) The only frame's time is a string: the same, its timers due after
  1 ms. (3) The second frame is \<^verbatim>\<open>null\<close>: the hub answers \<^verbatim>\<open>sequence_start\<close> and then
  \<^verbatim>\<open>SEQUENCE_ERROR\<close>, after it has dropped the five timers and set one for the first frame.
\<close>

theorem malformed_sequence_accepted:
  "length (joints shortFrame) = 1 \<and> length (jointConfigs demoArm) = 3 \<and>
   map t_handle (pending hubPlaying) = [0, 1, 2, 3, 4] \<and>
   outbox (hub_run [FileChanged (SequenceData JNull (Some (Array [Frame shortFrame]))),
                    Message 1 TestSequenceRequest] hubPlaying) 1 =
     outbox hubPlaying 1 @ [MSequenceStart JNull] \<and>
   pending (hub_run [FileChanged (SequenceData JNull (Some (Array [Frame shortFrame]))),
                     Message 1 TestSequenceRequest] hubPlaying) =
     [\<lparr>t_handle = 5, t_due = 40, t_action = SendFrame 1 (Frame shortFrame)\<rparr>,
      \<lparr>t_handle = 6, t_due = 40, t_action = SendComplete 1\<rparr>] \<and>
   length (gsap (executeFrame shortFrame None (playingQueue None []))) = 1 \<and>
   status (executeFrame shortFrame None (playingQueue None [])) = Playing \<and>
   outbox (hub_run [FileChanged (SequenceData JNull (Some (Array [OddFrame untimedFrame]))),
                    Message 1 TestSequenceRequest] hubPlaying) 1 =
     outbox hubPlaying 1 @ [MSequenceStart JNull] \<and>
   pending (hub_run [FileChanged (SequenceData JNull (Some (Array [OddFrame untimedFrame]))),
                     Message 1 TestSequenceRequest] hubPlaying) =
     [\<lparr>t_handle = 5, t_due = 1, t_action = SendFrame 1 (OddFrame untimedFrame)\<rparr>,
      \<lparr>t_handle = 6, t_due = 1, t_action = SendComplete 1\<rparr>] \<and>
   outbox (hub_run [FileChanged leakFile, Message 1 TestSequenceRequest] hubPlaying) 1 =
     outbox hubPlaying 1 @ [MSequenceStart JNull, MError ''SEQUENCE_ERROR'' 0] \<and>
   pending (hub_run [FileChanged leakFile, Message 1 TestSequenceRequest] hubPlaying) =
     [\<lparr>t_handle = 5, t_due = 1000, t_action = SendFrame 1 (Frame (demoFrame 1 1000 None))\<rparr>] \<and>
   sequenceTimers (hub_run [FileChanged leakFile, Message 1 TestSequenceRequest] hubPlaying) 1 = None"
  by (simp add: hubPlaying_def hub_run_def newHub_def demoFile_def leakFile_def onConnection_def
      Let_def handleTestSequenceRequest_def pushSequenceFrames_def clearClientSequenceTimers_def
      setTimeout_def wsSend_def sendError_def demoFrame_def shortFrame_def demoArm_def
      clearTimeout_def TIMEOUT_MAX_def
      executeFrame_def playingQueue_def newQueue_def animateMultipleJoints_def
      killArmTimeline_def gripperOpennessOf_def io_digital_output_0_def
      calculateFrameDuration_def)

end
